theory Spec2Isabelle
  imports Complex_Main "HOL-Library.AList"
begin

section \<open>Python values\<close>

text \<open>
  Python's unbounded \<open>int\<close> is \<open>int\<close>, \<open>str\<close> and \<open>bytes\<close> are \<open>string\<close>. An exception
  is a value of \<open>py_error\<close>, one constructor per class the code meets, carrying the text
  that \<open>str(e)\<close> returns; a function that can raise returns \<open>py_error + 'a\<close>.
\<close>

datatype py_error =
    StatisticsError string
  | ZeroDivisionError string
  | AttributeError string
  | TypeError string
  | ValueError string
  | TimeoutError string
  | RequestException string
  | ConnectionError string
  | RetryError string
  | IOError string
  | Exception string

fun exn_text :: "py_error \<Rightarrow> string" where
  "exn_text (StatisticsError s) = s"
| "exn_text (ZeroDivisionError s) = s"
| "exn_text (AttributeError s) = s"
| "exn_text (TypeError s) = s"
| "exn_text (ValueError s) = s"
| "exn_text (ConnectionError s) = s"
| "exn_text (RetryError s) = s"
| "exn_text (TimeoutError s) = s"
| "exn_text (RequestException s) = s"
| "exn_text (IOError s) = s"
| "exn_text (Exception s) = s"

text \<open>Values of the \<open>json\<close> module: what \<open>response.json()\<close> returns and \<open>json.dump\<close> writes.\<close>

datatype json =
    JNull
  | JBool bool
  | JInt int
  | JNum real
  | JStr string
  | JArr "json list"
  | JObj "(string \<times> json) list"

text \<open>
  \<open>d.get(k)\<close>: \<open>None\<close> for a missing key; a value that is no dict has no \<open>get\<close>, and
  the text of the \<open>AttributeError\<close> (which names the type) is shortened.
\<close>

definition dict_get :: "json \<Rightarrow> string \<Rightarrow> py_error + json option" where
  "dict_get d k =
     (case d of
        JObj kvs \<Rightarrow> Inr (map_of kvs k)
      | _ \<Rightarrow> Inl (AttributeError ''object has no attribute get''))"

text \<open>\<open>str(n)\<close> of an integer, in decimal.\<close>

definition digit_char :: "nat \<Rightarrow> char" where
  "digit_char d = ''0123456789'' ! d"

fun str_nat :: "nat \<Rightarrow> string" where
  "str_nat n = (if n < 10 then [digit_char n] else str_nat (n div 10) @ [digit_char (n mod 10)])"

declare str_nat.simps [simp del]

definition str_int :: "int \<Rightarrow> string" where
  "str_int i = (if i < 0 then ''-'' @ str_nat (nat (- i)) else str_nat (nat i))"

subsection \<open>Floats\<close>

text \<open>
  A Python \<open>float\<close> is an IEEE 754 binary64 number, here the real number it denotes.
  Every floating-point operation of the source is the exact operation followed by a
  rounding, and the definitions below take the rounding function \<open>rnd\<close> as their first
  argument: \<open>rnd = id\<close> is exact arithmetic, \<open>rnd = fl\<close> is binary64.

  \<open>fl\<close> rounds to the nearest number with a 53-bit significand, ties to the even
  significand. The exponent is unbounded, so \<open>fl\<close> is the binary64 rounding on the
  normal range (magnitudes from \<open>2 powi (-1022)\<close> up to the largest finite double);
  overflow, subnormal numbers, infinities and NaN are outside the model.
  \<open>ilog2 x\<close> is the exponent \<open>e\<close> with \<open>2 powi e \<le> x < 2 powi (e + 1)\<close>.
\<close>

function ilog2 :: "real \<Rightarrow> int" where
  "ilog2 x = (if x \<le> 0 then 0
              else if 2 \<le> x then ilog2 (x / 2) + 1
              else if x < 1 then ilog2 (2 * x) - 1
              else 0)"
  by pat_completeness auto
termination
proof (relation "measure (\<lambda>x. nat \<lceil>x\<rceil> + 2 * nat \<lceil>1 / x\<rceil>)", goal_cases)
  case 1 show ?case by simp
next
  case (2 x)
  then have x: "2 \<le> x" by simp
  have a: "\<lceil>x / 2\<rceil> < \<lceil>x\<rceil>" using x by linarith
  have b: "\<lceil>1 / (x / 2)\<rceil> = 1" using x by (simp add: ceiling_eq_iff)
  have c: "\<lceil>1 / x\<rceil> = 1" using x by (simp add: ceiling_eq_iff)
  have d: "0 < \<lceil>x / 2\<rceil>" using x by linarith
  show ?case using a b c d by simp
next
  case (3 x)
  then have x: "0 < x" "x < 1" by simp_all
  have a: "\<lceil>x\<rceil> = 1" using x by (simp add: ceiling_eq_iff)
  have b: "\<lceil>2 * x\<rceil> \<le> 2" using x by linarith
  have y: "1 < 1 / x" using x by simp
  have c: "\<lceil>1 / (2 * x)\<rceil> < \<lceil>1 / x\<rceil>"
  proof -
    have "\<lceil>y / 2\<rceil> < \<lceil>y\<rceil>" if "1 < y" for y :: real
    proof (cases "2 \<le> y")
      case True then show ?thesis by linarith
    next
      case False
      with that have "\<lceil>y / 2\<rceil> = 1" "\<lceil>y\<rceil> = 2" by (simp_all add: ceiling_eq_iff)
      then show ?thesis by simp
    qed
    from this [OF y] have "\<lceil>(1 / x) / 2\<rceil> < \<lceil>1 / x\<rceil>" .
    then show ?thesis by (simp add: mult.commute)
  qed
  have d: "0 < \<lceil>1 / (2 * x)\<rceil>" using x by (simp add: field_simps)
  have n1: "nat \<lceil>2 * x\<rceil> \<le> 2" using b by linarith
  have n2: "nat \<lceil>1 / (2 * x)\<rceil> < nat \<lceil>1 / x\<rceil>" using c d by linarith
  have n3: "nat \<lceil>x\<rceil> = 1" using a by simp
  show ?case unfolding in_measure using n1 n2 n3 by linarith
qed

declare ilog2.simps [simp del]

definition round_even :: "real \<Rightarrow> int" where
  "round_even q =
     (let f = \<lfloor>q\<rfloor>; d = q - of_int f in
      if d < 1 / 2 then f else if 1 / 2 < d then f + 1 else if even f then f else f + 1)"

definition fl :: "real \<Rightarrow> real" where
  "fl x = (if x = 0 then 0
           else let u = 2 powi (ilog2 \<bar>x\<bar> - 52) in
                sgn x * (of_int (round_even (\<bar>x\<bar> / u)) * u))"

text \<open>\<open>int(x)\<close> of a float truncates towards zero.\<close>

definition py_int :: "real \<Rightarrow> int" where
  "py_int x = (if 0 \<le> x then \<lfloor>x\<rfloor> else \<lceil>x\<rceil>)"

section \<open>backend/test\_automation/api\_upload\_tests.py\<close>

subsection \<open>Data classes\<close>

record TestFile =
  name :: string
  path :: string
  size :: int
  category :: string
  remote_path :: string
  hash_sha256 :: "string option"

text \<open>
  The field \<open>method\<close> is \<open>upload_method\<close> here. \<open>error\<close> is declared
  \<open>Optional[str]\<close>; the code stores there what \<open>response.get("error")\<close> or \<open>str(e)\<close>
  returns, so the field holds a JSON value.
\<close>

record UploadResult =
  test_id :: string
  file_name :: string
  file_size :: int
  upload_method :: string
  success :: bool
  duration :: real
  error :: "json option"
  throughput_mbps :: "real option"
  response_data :: "json option"
  api_response_time :: "real option"
  upload_time :: "real option"

record TestMetrics =
  test_name :: string
  start_time :: int
  end_time :: int
  total_files :: nat
  successful_uploads :: nat
  failed_uploads :: nat
  total_bytes :: int
  total_duration :: real
  avg_throughput_mbps :: real
  success_rate :: real
  results :: "UploadResult list"
  min_duration :: real
  max_duration :: real
  p50_duration :: real
  p95_duration :: real
  p99_duration :: real
  avg_api_response_time :: real
  min_api_response_time :: real
  max_api_response_time :: real

subsection \<open>\<open>RidgepointFileManager._categorize_file\<close>\<close>

text \<open>\<open>size / (1024 * 1024)\<close> is the true division of two integers, rounded once.\<close>

definition categorize_file :: "(real \<Rightarrow> real) \<Rightarrow> int \<Rightarrow> string" where
  "categorize_file rnd sz =
     (let mb = rnd (of_int sz / (1024 * 1024)) in
      if mb < 100 then ''small''
      else if mb < 500 then ''medium''
      else if mb < 1000 then ''large''
      else ''xlarge'')"

subsection \<open>\<open>SermonUploaderAPI\<close>\<close>

text \<open>
  A response has a status code, a body text, what \<open>response.json()\<close> does on that body,
  and a \<open>Retry-After\<close> header or none.
\<close>

record http_response =
  status_code :: int
  response_text :: string
  json_body :: "py_error + json"
  has_retry_after :: bool

datatype request_body =
    Multipart string string string string
  | JsonBody json
  | RawBody string "(string \<times> string) list"

text \<open>
  The network is the environment. One attempt to send a request returns a response, fails
  with an error that the adapter retries (a refused or reset connection, a timeout: the
  text of the error is its \<open>repr\<close>), or raises an exception that is not retried (an
  invalid URL, a failure while the body of the response is read). \<open>post_attempt t k\<close> is
  what the \<open>k\<close>-th attempt of a request does. \<open>session.put\<close> receives as URL whatever
  \<open>response.get("upload_url")\<close> gave, which may be \<open>None\<close> or no string at all; an attempt
  raises on such a URL.
\<close>

datatype attempt =
    Response http_response
  | Retryable py_error
  | Fatal py_error

record transport =
  post_attempt :: "nat \<Rightarrow> string \<Rightarrow> request_body \<Rightarrow> attempt"
  put_attempt :: "nat \<Rightarrow> json option \<Rightarrow> request_body \<Rightarrow> attempt"

text \<open>
  \<open>_create_session\<close> mounts an adapter with
  \<open>Retry(total=3, status_forcelist=[429, 500, 502, 503, 504], method_whitelist=[...,
  "POST", "PUT", ...], backoff_factor=1)\<close>, as urllib3 1.26 accepts it; \<open>raise_on_status\<close>
  and \<open>respect_retry_after_header\<close> keep their default \<open>True\<close>. \<open>is_retry\<close> is
  \<open>Retry.is_retry\<close> for a retryable verb, with \<open>n\<close> the retries that are left.
\<close>

definition retry_total :: nat where
  "retry_total = 3"

definition status_forcelist :: "int list" where
  "status_forcelist = [429, 500, 502, 503, 504]"

definition retry_after_status_codes :: "int list" where
  "retry_after_status_codes = [413, 429, 503]"

definition is_retry :: "nat \<Rightarrow> http_response \<Rightarrow> bool" where
  "is_retry n response =
     (status_code response \<in> set status_forcelist
      \<or> (n \<noteq> 0 \<and> has_retry_after response
          \<and> status_code response \<in> set retry_after_status_codes))"

text \<open>
  The text of a \<open>MaxRetryError\<close>, which is the text of the exception that \<open>requests\<close> raises
  in its place: \<open>RetryError\<close> when the cause is a response, \<open>ConnectionError\<close> (or a subclass)
  when it is an error. The text starts with the connection pool and the URL; that prefix
  is left out here.
\<close>

definition max_retry_text :: "string \<Rightarrow> string" where
  "max_retry_text cause = ''Max retries exceeded (Caused by '' @ cause @ '')''"

definition response_error :: "http_response \<Rightarrow> string" where
  "response_error response =
     ''ResponseError('' @ [CHR 0x27] @ ''too many '' @ str_int (status_code response)
     @ '' error responses'' @ [CHR 0x27] @ '')''"

text \<open>
  One request through the adapter, from attempt \<open>k\<close> with \<open>n\<close> retries left. Each retried
  attempt uses up one retry; when none is left, a response of the force list or a
  retryable error ends the request with an exception. The sleeps between the attempts
  change no value.
\<close>

fun send :: "nat \<Rightarrow> (nat \<Rightarrow> attempt) \<Rightarrow> nat \<Rightarrow> py_error + http_response" where
  "send 0 att k =
     (case att k of
        Response response \<Rightarrow>
          if is_retry 0 response then Inl (RetryError (max_retry_text (response_error response)))
          else Inr response
      | Retryable e \<Rightarrow> Inl (ConnectionError (max_retry_text (exn_text e)))
      | Fatal e \<Rightarrow> Inl e)"
| "send (Suc n) att k =
     (case att k of
        Response response \<Rightarrow>
          if is_retry (Suc n) response then send n att (Suc k) else Inr response
      | Retryable e \<Rightarrow> send n att (Suc k)
      | Fatal e \<Rightarrow> Inl e)"

text \<open>The session that the operations use: a request either raises or returns a response.\<close>

record session =
  post :: "string \<Rightarrow> request_body \<Rightarrow> py_error + http_response"
  put :: "json option \<Rightarrow> request_body \<Rightarrow> py_error + http_response"

definition create_session :: "transport \<Rightarrow> session" where
  "create_session t =
     \<lparr> post = (\<lambda>url body. send retry_total (\<lambda>k. post_attempt t k url body) 0),
       put = (\<lambda>url body. send retry_total (\<lambda>k. put_attempt t k url body) 0) \<rparr>"

text \<open>
  Each operation reads \<open>time.time()\<close> before the request and again when it builds its
  result; \<open>clk n\<close> is the \<open>n\<close>-th reading during the call. A result \<open>Inl e\<close> would be an
  exception that leaves the operation; \<open>Inr (success, payload, duration)\<close> is the returned
  tuple. The \<open>except Exception\<close> clause covers the request and \<open>response.json()\<close>.
\<close>

type_synonym api_result = "py_error + (bool \<times> json \<times> real)"

definition http_error_payload :: "http_response \<Rightarrow> json" where
  "http_error_payload response =
     JObj [(''error'', JStr (''HTTP '' @ str_int (status_code response) @ '': '' @ response_text response))]"

definition exception_payload :: "py_error \<Rightarrow> json" where
  "exception_payload e = JObj [(''error'', JStr (exn_text e))]"

definition upload_direct ::
  "(real \<Rightarrow> real) \<Rightarrow> session \<Rightarrow> string \<Rightarrow> (nat \<Rightarrow> real) \<Rightarrow> string \<Rightarrow> string \<Rightarrow> api_result" where
  "upload_direct rnd s base_url clk file_data filename =
     (let url = base_url @ ''/api/upload'';
          files = Multipart ''files'' filename file_data ''audio/wav'';
          start_time = clk 0
      in case post s url files of
           Inl e \<Rightarrow> Inr (False, exception_payload e, rnd (clk 1 - start_time))
         | Inr response \<Rightarrow>
             let duration = rnd (clk 1 - start_time) in
             if status_code response = 200
             then (case json_body response of
                     Inl e \<Rightarrow> Inr (False, exception_payload e, rnd (clk 2 - start_time))
                   | Inr j \<Rightarrow> Inr (True, j, duration))
             else Inr (False, http_error_payload response, duration))"

definition get_presigned_url ::
  "(real \<Rightarrow> real) \<Rightarrow> session \<Rightarrow> string \<Rightarrow> (nat \<Rightarrow> real) \<Rightarrow> string \<Rightarrow> api_result" where
  "get_presigned_url rnd s base_url clk filename =
     (let url = base_url @ ''/api/upload/presigned'';
          payload = JsonBody (JObj [(''filename'', JStr filename)]);
          start_time = clk 0
      in case post s url payload of
           Inl e \<Rightarrow> Inr (False, exception_payload e, rnd (clk 1 - start_time))
         | Inr response \<Rightarrow>
             let duration = rnd (clk 1 - start_time) in
             if status_code response = 200
             then (case json_body response of
                     Inl e \<Rightarrow> Inr (False, exception_payload e, rnd (clk 2 - start_time))
                   | Inr j \<Rightarrow> Inr (True, j, duration))
             else Inr (False, http_error_payload response, duration))"

definition upload_presigned ::
  "(real \<Rightarrow> real) \<Rightarrow> session \<Rightarrow> (nat \<Rightarrow> real) \<Rightarrow> json option \<Rightarrow> string \<Rightarrow> api_result" where
  "upload_presigned rnd s clk presigned_url file_data =
     (let start_time = clk 0
      in case put s presigned_url (RawBody file_data [(''Content-Type'', ''audio/wav'')]) of
           Inl e \<Rightarrow> Inr (False, exception_payload e, rnd (clk 1 - start_time))
         | Inr response \<Rightarrow>
             let duration = rnd (clk 1 - start_time) in
             if status_code response \<in> set [200, 204]
             then Inr (True, JObj [(''message'', JStr ''Upload successful'')], duration)
             else Inr (False, http_error_payload response, duration))"

subsection \<open>\<open>APIUploadTester._test_presigned_upload\<close>\<close>

text \<open>
  The readings of \<open>time.time()\<close> of one presigned upload: one for the test id, then those
  of the two API operations.
\<close>

record timing =
  t_id :: real
  clk_api :: "nat \<Rightarrow> real"
  clk_put :: "nat \<Rightarrow> real"

definition test_presigned_upload ::
  "(real \<Rightarrow> real) \<Rightarrow> session \<Rightarrow> string \<Rightarrow> timing \<Rightarrow> TestFile \<Rightarrow> string \<Rightarrow> py_error + UploadResult" where
  "test_presigned_upload rnd s base_url tm test_file file_data =
     (let tid = ''presigned_'' @ str_int (py_int (t_id tm)) in
      case get_presigned_url rnd s base_url (clk_api tm) (name test_file) of
        Inl e \<Rightarrow> Inl e
      | Inr (ok, response, api_time) \<Rightarrow>
          if \<not> ok then
            (case dict_get response ''error'' of
               Inl e \<Rightarrow> Inl e
             | Inr err \<Rightarrow>
                 Inr \<lparr> test_id = tid, file_name = name test_file, file_size = size test_file,
                       upload_method = ''presigned'', success = False, duration = api_time,
                       error = err, throughput_mbps = None, response_data = None,
                       api_response_time = Some api_time, upload_time = None \<rparr>)
          else
            (case dict_get response ''upload_url'' of
               Inl e \<Rightarrow> Inl e
             | Inr presigned_url \<Rightarrow>
                 (case upload_presigned rnd s (clk_put tm) presigned_url file_data of
                    Inl e \<Rightarrow> Inl e
                  | Inr (ok2, upload_response, upload_t) \<Rightarrow>
                      (case (if \<not> ok2 then dict_get upload_response ''error'' else Inr None) of
                         Inl e \<Rightarrow> Inl e
                       | Inr err \<Rightarrow>
                           let total_d = rnd (api_time + upload_t);
                               throughput =
                                 (if upload_t > 0
                                  then rnd (rnd (of_int (size test_file) / (1024 * 1024)) / upload_t)
                                  else 0)
                           in Inr \<lparr> test_id = tid, file_name = name test_file,
                                    file_size = size test_file, upload_method = ''presigned'',
                                    success = ok2, duration = total_d, error = err,
                                    throughput_mbps = Some throughput,
                                    response_data = Some upload_response,
                                    api_response_time = Some api_time,
                                    upload_time = Some upload_t \<rparr>))))"

subsection \<open>The statistics module, as \<open>_calculate_metrics\<close> uses it\<close>

text \<open>
  \<open>statistics.median(data)\<close>: the middle element of the sorted data, or the mean of the
  two middle elements; it raises \<open>StatisticsError\<close> on empty data.
\<close>

definition median :: "(real \<Rightarrow> real) \<Rightarrow> real list \<Rightarrow> py_error + real" where
  "median rnd xs =
     (let data = sort xs; n = length data in
      if n = 0 then Inl (StatisticsError ''no median for empty data'')
      else if n mod 2 = 1 then Inr (data ! (n div 2))
      else let i = n div 2 in Inr (rnd (rnd (data ! (i - 1) + data ! i) / 2)))"

text \<open>
  \<open>statistics.quantiles(data, n=n)\<close> with the default method \<open>exclusive\<close>: the \<open>n - 1\<close>
  cut points, each interpolated between two neighbours of the sorted data. The indices
  \<open>i\<close>, \<open>j\<close>, \<open>m\<close> and \<open>delta\<close> are Python integers; the interpolation is
  \<open>(data[j - 1] * (n - delta) + data[j] * delta) / n\<close> on floats.
\<close>

definition quantile_cut :: "(real \<Rightarrow> real) \<Rightarrow> real list \<Rightarrow> int \<Rightarrow> int \<Rightarrow> real" where
  "quantile_cut rnd data n i =
     (let ld = int (length data);
          m = ld + 1;
          j0 = i * m div n;
          j = (if j0 < 1 then 1 else if j0 > ld - 1 then ld - 1 else j0);
          delta = i * m - j * n
      in rnd (rnd (rnd (data ! nat (j - 1) * of_int (n - delta))
                 + rnd (data ! nat j * of_int delta)) / of_int n))"

definition quantiles :: "(real \<Rightarrow> real) \<Rightarrow> real list \<Rightarrow> int \<Rightarrow> py_error + real list" where
  "quantiles rnd xs n =
     (if n < 1 then Inl (StatisticsError ''n must be at least 1'')
      else let data = sort xs in
        if length data < 2 then Inl (StatisticsError ''must have at least two data points'')
        else Inr (map (quantile_cut rnd data n) [1..n - 1]))"

subsection \<open>\<open>APIUploadTester._calculate_metrics\<close>\<close>

text \<open>
  The built-ins \<open>sum\<close>, \<open>min\<close> and \<open>max\<close> on a list of floats. \<open>sum\<close> starts from the
  integer 0 and adds from the left, rounding after each addition; \<open>min\<close> and \<open>max\<close> are
  only called on non-empty lists.
\<close>

definition py_sum :: "(real \<Rightarrow> real) \<Rightarrow> real list \<Rightarrow> real" where
  "py_sum rnd xs = foldl (\<lambda>acc x. rnd (acc + x)) 0 xs"

definition py_min :: "real list \<Rightarrow> real" where
  "py_min xs = fold min (tl xs) (hd xs)"

definition py_max :: "real list \<Rightarrow> real" where
  "py_max xs = fold max (tl xs) (hd xs)"

text \<open>Truthiness of an \<open>Optional[float]\<close>: \<open>None\<close> and \<open>0\<close> are false.\<close>

definition truthy :: "real option \<Rightarrow> bool" where
  "truthy v = (case v of None \<Rightarrow> False | Some t \<Rightarrow> t \<noteq> 0)"

text \<open>
  \<open>start_time\<close> and \<open>end_time\<close> are \<open>datetime\<close> values, here microseconds since the
  epoch; \<open>(end_time - start_time).total_seconds()\<close> is a float.
\<close>

definition calculate_metrics ::
  "(real \<Rightarrow> real) \<Rightarrow> string \<Rightarrow> int \<Rightarrow> int \<Rightarrow> UploadResult list \<Rightarrow> py_error + TestMetrics" where
  "calculate_metrics rnd tname start_t end_t rs =
     (let successful_results = filter success rs;
          failed_results = filter (\<lambda>r. \<not> success r) rs;
          durations = map duration (filter (\<lambda>r. duration r > 0) rs);
          api_times = map (the \<circ> api_response_time)
            (filter (\<lambda>r. truthy (api_response_time r) \<and> the (api_response_time r) > 0) rs);
          tot_bytes = sum_list (map file_size successful_results);
          tot_duration = rnd (of_int (end_t - start_t) / 1000000)
      in
      case (if durations \<noteq> [] then median rnd durations else Inr 0) of
        Inl e \<Rightarrow> Inl e
      | Inr p50 \<Rightarrow>
      (case (if length durations \<ge> 20
             then (case quantiles rnd durations 20 of Inl e \<Rightarrow> Inl e | Inr qs \<Rightarrow> Inr (qs ! 18))
             else Inr (if durations \<noteq> [] then py_max durations else 0)) of
        Inl e \<Rightarrow> Inl e
      | Inr p95 \<Rightarrow>
      (case (if length durations \<ge> 100
             then (case quantiles rnd durations 100 of Inl e \<Rightarrow> Inl e | Inr qs \<Rightarrow> Inr (qs ! 98))
             else Inr (if durations \<noteq> [] then py_max durations else 0)) of
        Inl e \<Rightarrow> Inl e
      | Inr p99 \<Rightarrow>
        Inr \<lparr> test_name = tname,
              start_time = start_t,
              end_time = end_t,
              total_files = length rs,
              successful_uploads = length successful_results,
              failed_uploads = length failed_results,
              total_bytes = tot_bytes,
              total_duration = tot_duration,
              avg_throughput_mbps =
                (if successful_results \<noteq> []
                 then rnd (py_sum rnd (map (the \<circ> throughput_mbps)
                             (filter (\<lambda>r. truthy (throughput_mbps r)) successful_results))
                           / of_nat (length successful_results))
                 else 0),
              success_rate =
                (if rs \<noteq> []
                 then rnd (rnd (of_nat (length successful_results) / of_nat (length rs)) * 100)
                 else 0),
              results = rs,
              min_duration = (if durations \<noteq> [] then py_min durations else 0),
              max_duration = (if durations \<noteq> [] then py_max durations else 0),
              p50_duration = p50,
              p95_duration = p95,
              p99_duration = p99,
              avg_api_response_time =
                (if api_times \<noteq> []
                 then rnd (py_sum rnd api_times / of_nat (length api_times)) else 0),
              min_api_response_time = (if api_times \<noteq> [] then py_min api_times else 0),
              max_api_response_time = (if api_times \<noteq> [] then py_max api_times else 0) \<rparr>)))"

subsection \<open>\<open>APIUploadTester.generate_report\<close>\<close>

text \<open>
  The keys of the configuration file that the tester reads: \<open>config["api"]["base_url"]\<close>,
  \<open>config["ridgepoint"]["hostname"]\<close> and
  \<open>config["testing"]["max_concurrent_uploads"]\<close>.
\<close>

record config =
  api_base_url :: string
  ridgepoint_hostname :: string
  max_concurrent_uploads :: int

definition opt_json :: "json option \<Rightarrow> json" where
  "opt_json v = (case v of None \<Rightarrow> JNull | Some j \<Rightarrow> j)"

definition opt_num :: "real option \<Rightarrow> json" where
  "opt_num v = (case v of None \<Rightarrow> JNull | Some x \<Rightarrow> JNum x)"

text \<open>\<open>dataclasses.asdict(r)\<close> of an \<open>UploadResult\<close>, the fields in declaration order.\<close>

definition asdict :: "UploadResult \<Rightarrow> json" where
  "asdict r =
     JObj [(''test_id'', JStr (test_id r)),
           (''file_name'', JStr (file_name r)),
           (''file_size'', JInt (file_size r)),
           (''method'', JStr (upload_method r)),
           (''success'', JBool (success r)),
           (''duration'', JNum (duration r)),
           (''error'', opt_json (error r)),
           (''throughput_mbps'', opt_num (throughput_mbps r)),
           (''response_data'', opt_json (response_data r)),
           (''api_response_time'', opt_num (api_response_time r)),
           (''upload_time'', opt_num (upload_time r))]"

definition test_result_entry :: "(real \<Rightarrow> real) \<Rightarrow> TestMetrics \<Rightarrow> json" where
  "test_result_entry rnd metrics =
     JObj [(''test_name'', JStr (test_name metrics)),
           (''duration_seconds'', JNum (total_duration metrics)),
           (''files_tested'', JInt (int (total_files metrics))),
           (''success_rate_percent'', JNum (success_rate metrics)),
           (''total_data_gb'', JNum (rnd (of_int (total_bytes metrics) / (1024 ^ 3)))),
           (''avg_throughput_mbps'', JNum (avg_throughput_mbps metrics)),
           (''performance_metrics'',
              JObj [(''min_upload_time'', JNum (min_duration metrics)),
                    (''max_upload_time'', JNum (max_duration metrics)),
                    (''median_upload_time'', JNum (p50_duration metrics)),
                    (''p95_upload_time'', JNum (p95_duration metrics)),
                    (''p99_upload_time'', JNum (p99_duration metrics)),
                    (''avg_api_response_time'', JNum (avg_api_response_time metrics))]),
           (''failed_uploads'',
              JArr (map (\<lambda>r. JObj [(''file'', JStr (file_name r)),
                                   (''error'', opt_json (error r)),
                                   (''method'', JStr (upload_method r))])
                        (filter (\<lambda>r. \<not> success r) (results metrics)))),
           (''detailed_results'', JArr (map asdict (results metrics)))]"

text \<open>
  The report dictionary. \<open>now_iso\<close> is \<open>datetime.now().isoformat()\<close>, the one reading of
  the clock that the function makes. A metric that the source leaves as the integer \<open>0\<close>
  is the number 0 here.
\<close>

definition generate_report :: "(real \<Rightarrow> real) \<Rightarrow> config \<Rightarrow> string \<Rightarrow> TestMetrics list \<Rightarrow> json" where
  "generate_report rnd cfg now_iso metrics_list =
     JObj [(''test_summary'',
              JObj [(''timestamp'', JStr now_iso),
                    (''total_tests'', JInt (int (length metrics_list))),
                    (''api_endpoint'', JStr (api_base_url cfg)),
                    (''ridgepoint_host'', JStr (ridgepoint_hostname cfg))]),
           (''test_results'', JArr (map (test_result_entry rnd) metrics_list))]"

text \<open>
  \<open>json.dump(report, f, indent=2, default=str)\<close>: the text written to the report file.
  The layout (brackets, separators, one member per line, two spaces per level) is the
  encoder's; the escaping of a string and the \<open>repr\<close> of a float are taken as
  parameters. \<open>default=str\<close> is never called: every value of the report is a JSON value.
\<close>

record json_atoms =
  escape :: "string \<Rightarrow> string"
  float_repr :: "real \<Rightarrow> string"

definition dq :: string where
  "dq = [CHR 0x22]"

definition newline_indent :: "nat \<Rightarrow> string" where
  "newline_indent level = CHR 0x0A # replicate (2 * level) CHR '' ''"

fun join :: "string \<Rightarrow> string list \<Rightarrow> string" where
  "join sep [] = []"
| "join sep [x] = x"
| "join sep (x # y # ys) = x @ sep @ join sep (y # ys)"

fun dumps :: "json_atoms \<Rightarrow> nat \<Rightarrow> json \<Rightarrow> string"
  and dumps_elems :: "json_atoms \<Rightarrow> nat \<Rightarrow> json list \<Rightarrow> string list"
  and dumps_members :: "json_atoms \<Rightarrow> nat \<Rightarrow> (string \<times> json) list \<Rightarrow> string list"
where
  "dumps a level JNull = ''null''"
| "dumps a level (JBool b) = (if b then ''true'' else ''false'')"
| "dumps a level (JInt i) = str_int i"
| "dumps a level (JNum x) = float_repr a x"
| "dumps a level (JStr s) = dq @ escape a s @ dq"
| "dumps a level (JArr xs) =
     (if xs = [] then ''[]''
      else ''['' @ newline_indent (level + 1)
           @ join ('','' @ newline_indent (level + 1)) (dumps_elems a (level + 1) xs)
           @ newline_indent level @ '']'')"
| "dumps a level (JObj kvs) =
     (if kvs = [] then ''{}''
      else ''{'' @ newline_indent (level + 1)
           @ join ('','' @ newline_indent (level + 1)) (dumps_members a (level + 1) kvs)
           @ newline_indent level @ ''}'')"
| "dumps_elems a level [] = []"
| "dumps_elems a level (x # xs) = dumps a level x # dumps_elems a level xs"
| "dumps_members a level [] = []"
| "dumps_members a level ((k, v) # kvs) =
     (dq @ escape a k @ dq @ '': '' @ dumps a level v) # dumps_members a level kvs"

definition report_file :: "json_atoms \<Rightarrow> (real \<Rightarrow> real) \<Rightarrow> config \<Rightarrow> string \<Rightarrow> TestMetrics list \<Rightarrow> string" where
  "report_file a rnd cfg now_iso metrics_list = dumps a 0 (generate_report rnd cfg now_iso metrics_list)"

section \<open>backend/test\_automation/sunday\_morning\_stress\_test.py\<close>

text \<open>The field \<open>name\<close> of the scenario is \<open>scenario_name\<close> here (\<open>TestFile\<close> has a \<open>name\<close>).\<close>

record StressScenario =
  scenario_name :: string
  description :: string
  file_count :: int
  concurrent_uploads :: int
  duration_minutes :: int
  upload_pattern :: string
  file_size_preference :: string
  simulate_interruptions :: bool
  network_delay_ms :: int

text \<open>
  What the tester does not control: the SFTP read of a remote file, the network, the
  clock readings of each upload, and, for the \<open>i\<close>-th submitted future, the exception that
  \<open>future.result(timeout=...)\<close> raises when the result is not there in time (\<open>None\<close> when the
  result arrives). The workers only share these; each upload is a function of its file.
  \<open>http\<close> is the session of the API object, created by \<open>_create_session\<close>.
\<close>

record world =
  sftp_read :: "string \<Rightarrow> py_error + string"
  net :: transport
  base_url :: string
  timings :: "string \<Rightarrow> timing"
  future_wait :: "nat \<Rightarrow> py_error option"

definition http :: "world \<Rightarrow> session" where
  "http w = create_session (net w)"

text \<open>
  \<open>_upload_with_monitoring\<close>. The two \<open>time.sleep\<close> calls (network delay, simulated
  interruption) change no value and are left out. Every exception of the body becomes a
  failed \<open>UploadResult\<close> whose \<open>error\<close> is \<open>str(e)\<close>, so the function itself never raises.
\<close>

definition failed_result :: "string \<Rightarrow> TestFile \<Rightarrow> string \<Rightarrow> py_error \<Rightarrow> UploadResult" where
  "failed_result tid test_file meth e =
     \<lparr> test_id = tid, file_name = name test_file, file_size = size test_file,
       upload_method = meth, success = False, duration = 0, error = Some (JStr (exn_text e)),
       throughput_mbps = None, response_data = None, api_response_time = None,
       upload_time = None \<rparr>"

definition upload_with_monitoring ::
  "(real \<Rightarrow> real) \<Rightarrow> world \<Rightarrow> TestFile \<Rightarrow> string \<Rightarrow> StressScenario \<Rightarrow> UploadResult" where
  "upload_with_monitoring rnd w test_file tid scenario =
     (case (case sftp_read w (remote_path test_file) of
              Inl e \<Rightarrow> Inl e
            | Inr file_data \<Rightarrow>
                test_presigned_upload rnd (http w) (base_url w) (timings w (name test_file))
                  test_file file_data) of
        Inr result \<Rightarrow> result
      | Inl e \<Rightarrow> failed_result tid test_file ''stress_monitored'' e)"

text \<open>
  \<open>_run_immediate_scenario\<close>. \<open>ThreadPoolExecutor(max_workers=n)\<close> raises a \<open>ValueError\<close>
  for \<open>n \<le> 0\<close>, before any file is submitted and outside every \<open>try\<close>.
  The futures are collected in submission order, so the result
  list is in the order of the files whatever the scheduling of the pool. For each future:
  an exception of \<open>future.result\<close> appends a failed result; otherwise the result is
  appended first and then logged, and the log line of a success formats
  \<open>result.throughput_mbps\<close> with \<open>:.2f\<close>, which raises on \<open>None\<close> inside the same \<open>try\<close>.
\<close>

definition collect_immediate ::
  "(real \<Rightarrow> real) \<Rightarrow> world \<Rightarrow> StressScenario \<Rightarrow> nat \<Rightarrow> TestFile \<Rightarrow> UploadResult list" where
  "collect_immediate rnd w scenario i test_file =
     (case future_wait w i of
        Some e \<Rightarrow>
          [failed_result (''immediate_error_'' @ name test_file) test_file ''stress_immediate'' e]
      | None \<Rightarrow>
          let result = upload_with_monitoring rnd w test_file
                         (''immediate_'' @ str_nat i) scenario
          in if success result \<and> throughput_mbps result = None
             then [result,
                   failed_result (''immediate_error_'' @ name test_file) test_file
                     ''stress_immediate''
                     (TypeError ''unsupported format string passed to NoneType.__format__'')]
             else [result])"

definition immediate_results ::
  "(real \<Rightarrow> real) \<Rightarrow> world \<Rightarrow> StressScenario \<Rightarrow> TestFile list \<Rightarrow> UploadResult list" where
  "immediate_results rnd w scenario test_files =
     concat (map (\<lambda>(i, f). collect_immediate rnd w scenario i f) (enumerate 0 test_files))"

text \<open>
  \<open>_calculate_stress_metrics\<close> returns the metrics of \<open>_calculate_metrics\<close> unchanged; the
  rest of it only logs.
\<close>

definition calculate_stress_metrics ::
  "(real \<Rightarrow> real) \<Rightarrow> string \<Rightarrow> int \<Rightarrow> int \<Rightarrow> UploadResult list \<Rightarrow> py_error + TestMetrics" where
  "calculate_stress_metrics rnd tname start_t end_t rs = calculate_metrics rnd tname start_t end_t rs"

definition run_immediate_scenario ::
  "(real \<Rightarrow> real) \<Rightarrow> world \<Rightarrow> int \<Rightarrow> int \<Rightarrow> StressScenario \<Rightarrow> TestFile list \<Rightarrow> py_error + TestMetrics" where
  "run_immediate_scenario rnd w start_t end_t scenario test_files =
     (if concurrent_uploads scenario \<le> 0
      then Inl (ValueError ''max_workers must be greater than 0'')
      else calculate_stress_metrics rnd (scenario_name scenario) start_t end_t
             (immediate_results rnd w scenario test_files))"

text \<open>
  \<open>random.uniform(a, b)\<close> is \<open>a + (b - a) * self.random()\<close>, where \<open>random()\<close> draws a
  float \<open>r\<close> with \<open>0 \<le> r < 1\<close>.
\<close>

definition py_uniform :: "(real \<Rightarrow> real) \<Rightarrow> real \<Rightarrow> real \<Rightarrow> real \<Rightarrow> real" where
  "py_uniform rnd a b r = rnd (a + rnd (rnd (b - a) * r))"

text \<open>
  The start delays of \<open>_run_staggered_scenario\<close>: \<open>interval_seconds\<close> is the budget in
  seconds divided by the number of files (a \<open>ZeroDivisionError\<close> without files), and file
  \<open>i\<close> is submitted to \<open>_delayed_upload\<close> with
  \<open>i * interval_seconds + random.uniform(0, interval_seconds * 0.3)\<close>. The literal \<open>0.3\<close>
  is the float nearest to \<open>3 / 10\<close>; \<open>draws i\<close> is the value of \<open>random()\<close> for file \<open>i\<close>.
\<close>

definition interval_seconds :: "(real \<Rightarrow> real) \<Rightarrow> StressScenario \<Rightarrow> nat \<Rightarrow> py_error + real" where
  "interval_seconds rnd scenario n_files =
     (if n_files = 0 then Inl (ZeroDivisionError ''division by zero'')
      else Inr (rnd (of_int (duration_minutes scenario * 60) / of_nat n_files)))"

definition staggered_delay :: "(real \<Rightarrow> real) \<Rightarrow> real \<Rightarrow> nat \<Rightarrow> real \<Rightarrow> real" where
  "staggered_delay rnd interval i r =
     rnd (rnd (of_nat i * interval) + py_uniform rnd 0 (rnd (interval * rnd (3 / 10))) r)"

definition staggered_delays ::
  "(real \<Rightarrow> real) \<Rightarrow> StressScenario \<Rightarrow> TestFile list \<Rightarrow> (nat \<Rightarrow> real) \<Rightarrow> py_error + real list" where
  "staggered_delays rnd scenario test_files draws =
     (case interval_seconds rnd scenario (length test_files) of
        Inl e \<Rightarrow> Inl e
      | Inr interval \<Rightarrow>
          Inr (map (\<lambda>i. staggered_delay rnd interval i (draws i)) [0..<length test_files]))"





section \<open>shared/discord\_live\_notifier.py\<close>

datatype ProcessingStage =
    DETECTED
  | UPLOADING
  | UPLOADED
  | PROCESSING
  | COMPLETED
  | ERROR

fun stage_value :: "ProcessingStage \<Rightarrow> string" where
  "stage_value DETECTED = ''File Detected''"
| "stage_value UPLOADING = ''Uploading to MinIO''"
| "stage_value UPLOADED = ''Upload Complete''"
| "stage_value PROCESSING = ''Converting to AAC''"
| "stage_value COMPLETED = ''Processing Complete''"
| "stage_value ERROR = ''Error Occurred''"

text \<open>
  A dict is an association list in insertion order: \<open>map_of\<close> looks a key up and
  \<open>AList.update\<close> overwrites the value of a present key in place and appends a new key, as
  assignment to \<open>d[k]\<close> does. Datetimes are microseconds since the epoch.
\<close>

record ProgressMessage =
  message_id :: string
  channel_id :: string
  webhook_url :: string
  title :: string
  created_at :: int
  last_updated :: int
  stages :: "(string \<times> ProcessingStage) list"
  file_info :: "(string \<times> (string \<times> json) list) list"

text \<open>The notifier's own \<open>webhook_url\<close> is \<open>self_webhook_url\<close> here.\<close>

record DiscordLiveNotifier =
  self_webhook_url :: string
  webhook_id :: string
  webhook_token :: string
  active_messages :: "(string \<times> ProgressMessage) list"

text \<open>
  The readings of \<open>get_est_time()\<close> during one call: the time stored in \<open>last_updated\<close>,
  the \<open>isoformat()\<close> of the embed's timestamp and the \<open>strftime('%I:%M %p')\<close> of its
  footer.
\<close>

record est_time =
  est_now :: int
  est_iso :: string
  est_clock :: string

text \<open>
  The formatting of the values of \<open>file_info\<close>: \<open>f"{x}"\<close>, \<open>self._format_size(x)\<close> and
  \<open>f"{x:.1f}"\<close>. The last two do float arithmetic and raise on a value that is no number.
\<close>

record formatter =
  fmt_str :: "json \<Rightarrow> string"
  format_size :: "json \<Rightarrow> py_error + string"
  fmt_1f :: "json \<Rightarrow> py_error + string"

text \<open>
  The non-ASCII string literals of the source file, byte for byte in UTF-8: the filled and
  the empty cell of the progress bar, the mark of the error bar, the icons before a file
  name and before the summary, and the separator of the footer.
\<close>

definition bar_filled :: string where
  "bar_filled = [CHR 0xC3, CHR 0xA2, CHR 0xE2, CHR 0x80, CHR 0x93, CHR 0xCB, CHR 0x86]"

definition bar_empty :: string where
  "bar_empty = [CHR 0xC3, CHR 0xA2, CHR 0xE2, CHR 0x80, CHR 0x93, CHR 0xE2, CHR 0x80, CHR 0x98]"

definition error_mark :: string where
  "error_mark = [CHR 0xC3, CHR 0xA2, CHR 0xC5, CHR 0x92]"

definition file_icon :: string where
  "file_icon = [CHR 0xC3, CHR 0xB0, CHR 0xC5, CHR 0xB8, CHR 0xE2, CHR 0x80, CHR 0x9C, CHR 0xE2, CHR 0x80, CHR 0x9E]"

definition summary_icon :: string where
  "summary_icon = [CHR 0xC3, CHR 0xB0, CHR 0xC5, CHR 0xB8, CHR 0xE2, CHR 0x80, CHR 0x9C, CHR 0xC5, CHR 0xA0]"

definition footer_separator :: string where
  "footer_separator = [CHR 0xC3, CHR 0xA2, CHR 0xE2, CHR 0x82, CHR 0xAC, CHR 0xC2, CHR 0xA2]"

definition stages_order :: "ProcessingStage list" where
  "stages_order = [DETECTED, UPLOADING, UPLOADED, PROCESSING, COMPLETED]"

fun index_of :: "'a list \<Rightarrow> 'a \<Rightarrow> nat option" where
  "index_of [] x = None"
| "index_of (y # ys) x = (if y = x then Some 0 else map_option Suc (index_of ys x))"

definition get_progress_bar :: "ProcessingStage \<Rightarrow> string" where
  "get_progress_bar stage =
     (if stage = ERROR then error_mark @ '' '' @ concat (replicate 10 bar_empty) @ '' Error''
      else case index_of stages_order stage of
             Some current_index \<Rightarrow>
               concat (replicate ((current_index + 1) * 2) bar_filled)
               @ concat (replicate ((length stages_order - current_index - 1) * 2) bar_empty)
           | None \<Rightarrow> concat (replicate 10 bar_empty))"

record embed_field =
  field_name :: string
  field_value :: string
  inline :: bool

record embed =
  embed_title :: string
  color :: int
  embed_fields :: "embed_field list"
  timestamp :: string
  footer_text :: string

text \<open>
  \<open>file[:n]\<close> cuts a \<open>str\<close> after \<open>n\<close> characters. A string is its UTF-8 bytes here, and
  a character is a byte that is no continuation byte (\<open>0x80\<close> to \<open>0xBF\<close>) followed by its
  continuation bytes.
\<close>

definition is_continuation :: "char \<Rightarrow> bool" where
  "is_continuation c = (128 \<le> (of_char c :: nat) \<and> (of_char c :: nat) < 192)"

fun take_chars :: "nat \<Rightarrow> string \<Rightarrow> string" where
  "take_chars n [] = []"
| "take_chars n (c # cs) =
     (if is_continuation c then c # take_chars n cs
      else case n of 0 \<Rightarrow> [] | Suc m \<Rightarrow> c # take_chars m cs)"

definition info_text :: "formatter \<Rightarrow> (string \<times> json) list \<Rightarrow> py_error + string" where
  "info_text fm info =
     (let v1 = (case map_of info ''progress_percent'' of
                  None \<Rightarrow> []
                | Some p \<Rightarrow> '' ('' @ fmt_str fm p @ ''%)'')
      in case (case map_of info ''size'' of
                 None \<Rightarrow> Inr []
               | Some sz \<Rightarrow> (case format_size fm sz of
                              Inl e \<Rightarrow> Inl e
                            | Inr t \<Rightarrow> Inr (CHR 0x0A # ''**Size:** '' @ t))) of
           Inl e \<Rightarrow> Inl e
         | Inr v2 \<Rightarrow>
             (case (case map_of info ''duration'' of
                      None \<Rightarrow> Inr []
                    | Some d \<Rightarrow> (case fmt_1f fm d of
                                  Inl e \<Rightarrow> Inl e
                                | Inr t \<Rightarrow> Inr (CHR 0x0A # ''**Duration:** '' @ t @ ''s''))) of
                Inl e \<Rightarrow> Inl e
              | Inr v3 \<Rightarrow> Inr (v1 @ v2 @ v3)))"

definition progress_field ::
  "formatter \<Rightarrow> (string \<times> (string \<times> json) list) list \<Rightarrow> string \<times> ProcessingStage \<Rightarrow> py_error + embed_field" where
  "progress_field fm finfo fs =
     (let file = fst fs; stage = snd fs;
          v = get_progress_bar stage @ CHR 0x0A # ''**Status:** '' @ stage_value stage
      in case (case map_of finfo file of
                 None \<Rightarrow> Inr []
               | Some info \<Rightarrow> info_text fm info) of
           Inl e \<Rightarrow> Inl e
         | Inr extra \<Rightarrow>
             Inr \<lparr> field_name = file_icon @ '' '' @ take_chars 50 file,
                   field_value = v @ extra, inline = False \<rparr>)"

fun collect_fields :: "(py_error + 'a) list \<Rightarrow> py_error + 'a list" where
  "collect_fields [] = Inr []"
| "collect_fields (Inl e # xs) = Inl e"
| "collect_fields (Inr x # xs) = (case collect_fields xs of Inl e \<Rightarrow> Inl e | Inr ys \<Rightarrow> Inr (x # ys))"

definition create_progress_embed ::
  "formatter \<Rightarrow> est_time \<Rightarrow> string \<Rightarrow> (string \<times> ProcessingStage) list
     \<Rightarrow> (string \<times> (string \<times> json) list) list \<Rightarrow> py_error + embed" where
  "create_progress_embed fm est ttl stgs finfo =
     (let col = (if list_ex (\<lambda>stage. stage = ERROR) (map snd stgs) then 0xff0000
                 else if list_all (\<lambda>stage. stage = COMPLETED) (map snd stgs) then 0x00ff00
                 else 0xffaa00)
      in case collect_fields (map (progress_field fm finfo) stgs) of
           Inl e \<Rightarrow> Inl e
         | Inr fs \<Rightarrow>
             let total_n = length stgs;
                 completed = length (filter (\<lambda>s. s = COMPLETED) (map snd stgs));
                 errors = length (filter (\<lambda>s. s = ERROR) (map snd stgs));
                 summary = ''**Total:** '' @ str_nat total_n @ '' files'' @ [CHR 0x0A]
                           @ ''**Completed:** '' @ str_nat completed @ [CHR 0x0A]
                           @ (if errors > 0 then ''**Errors:** '' @ str_nat errors else [])
             in Inr \<lparr> embed_title = ttl, color = col,
                      embed_fields = fs @ [\<lparr> field_name = summary_icon @ '' Summary'',
                                       field_value = summary, inline = True \<rparr>],
                      timestamp = est_iso est,
                      footer_text = ''Sermon Processing Pipeline '' @ footer_separator @ '' EST ''
                                    @ est_clock est \<rparr>)"

text \<open>The URL that \<open>update_progress\<close> edits.\<close>

definition edit_url_of :: "DiscordLiveNotifier \<Rightarrow> string \<Rightarrow> string" where
  "edit_url_of self mid =
     ''https://discord.com/api/webhooks/'' @ webhook_id self @ ''/'' @ webhook_token self
     @ ''/messages/'' @ mid"

definition dict_update :: "('k \<times> 'v) list \<Rightarrow> ('k \<times> 'v) list \<Rightarrow> ('k \<times> 'v) list" where
  "dict_update d new = fold (\<lambda>kv acc. AList.update (fst kv) (snd kv) acc) new d"

text \<open>
  \<open>update_progress\<close>. The remote service is the function \<open>patch\<close>: given the edit URL and
  the embed, \<open>session.patch\<close> raises or returns a status code. The result is the returned
  boolean, the notifier after the call, and the request that was sent, if one was.
  The stage mapping is written under the lock before the embed is built, so it stays
  written when the embed or the request fails afterwards. A tracked message exists only
  after \<open>create_progress_message\<close> used the session, so the session is not \<open>None\<close> here.
\<close>

definition update_progress ::
  "formatter \<Rightarrow> (string \<Rightarrow> embed \<Rightarrow> py_error + int) \<Rightarrow> est_time \<Rightarrow> DiscordLiveNotifier
     \<Rightarrow> string \<Rightarrow> string \<Rightarrow> ProcessingStage \<Rightarrow> (string \<times> json) list option
     \<Rightarrow> bool \<times> DiscordLiveNotifier \<times> (string \<times> embed) option" where
  "update_progress fm patch est self mid file stage info =
     (case map_of (active_messages self) mid of
        None \<Rightarrow> (False, self, None)
      | Some message \<Rightarrow>
          let stages1 = (if file \<in> fst ` set (stages message)
                         then AList.update file stage (stages message)
                         else stages message);
              file_info1 =
                (case info of
                   None \<Rightarrow> file_info message
                 | Some d \<Rightarrow>
                     if d = [] then file_info message
                     else let fi = (if file \<notin> fst ` set (file_info message)
                                    then AList.update file [] (file_info message)
                                    else file_info message)
                          in AList.update file (dict_update (the (map_of fi file)) d) fi);
              message1 = message \<lparr> stages := stages1, file_info := file_info1,
                                   last_updated := est_now est \<rparr>;
              self1 = self \<lparr> active_messages :=
                               AList.update mid message1 (active_messages self) \<rparr>
          in case create_progress_embed fm est (title message1) stages1 file_info1 of
               Inl e \<Rightarrow> (False, self1, None)
             | Inr emb \<Rightarrow>
                 let edit_url = edit_url_of self mid
                 in (case patch edit_url emb of
                       Inl e \<Rightarrow> (False, self1, Some (edit_url, emb))
                     | Inr status \<Rightarrow> (status = 200, self1, Some (edit_url, emb))))"

text \<open>
  Successive calls of \<open>update_progress\<close> on one message: each call has its file, stage,
  info, clock and remote behaviour. \<open>stage_of\<close> reads the stage recorded for a file, and
  \<open>recorded_stages\<close> lists it after each call.
\<close>

record update_call =
  call_file :: string
  call_stage :: ProcessingStage
  call_info :: "(string \<times> json) list option"
  call_est :: est_time
  call_patch :: "string \<Rightarrow> embed \<Rightarrow> py_error + int"

definition stage_of :: "DiscordLiveNotifier \<Rightarrow> string \<Rightarrow> string \<Rightarrow> ProcessingStage option" where
  "stage_of self mid file =
     (case map_of (active_messages self) mid of
        None \<Rightarrow> None
      | Some message \<Rightarrow> map_of (stages message) file)"

definition apply_call :: "formatter \<Rightarrow> DiscordLiveNotifier \<Rightarrow> string \<Rightarrow> update_call \<Rightarrow> DiscordLiveNotifier" where
  "apply_call fm self mid c =
     fst (snd (update_progress fm (call_patch c) (call_est c) self mid
                 (call_file c) (call_stage c) (call_info c)))"

fun recorded_stages ::
  "formatter \<Rightarrow> DiscordLiveNotifier \<Rightarrow> string \<Rightarrow> string \<Rightarrow> update_call list \<Rightarrow> ProcessingStage option list" where
  "recorded_stages fm self mid file [] = []"
| "recorded_stages fm self mid file (c # cs) =
     (let self1 = apply_call fm self mid c
      in stage_of self1 mid file # recorded_stages fm self1 mid file cs)"

text \<open>
  The order of the pipeline stages, and what it means for a recorded sequence to respect
  it: no step goes back in the order, and no step leaves \<open>ERROR\<close>.
\<close>

fun stage_rank :: "ProcessingStage \<Rightarrow> nat" where
  "stage_rank DETECTED = 0"
| "stage_rank UPLOADING = 1"
| "stage_rank UPLOADED = 2"
| "stage_rank PROCESSING = 3"
| "stage_rank COMPLETED = 4"
| "stage_rank ERROR = 5"

definition step_ok :: "ProcessingStage \<Rightarrow> ProcessingStage \<Rightarrow> bool" where
  "step_ok s t = (if s = ERROR then t = ERROR else stage_rank s \<le> stage_rank t)"

fun never_regresses :: "ProcessingStage list \<Rightarrow> bool" where
  "never_regresses [] = True"
| "never_regresses [s] = True"
| "never_regresses (s # t # ts) = (step_ok s t \<and> never_regresses (t # ts))"

text \<open>
  What the callers ask for: after each call, the stage of the last call that named the
  file, or the stage \<open>s\<close> the file had before when no call named it yet.
\<close>

fun requested_stages :: "ProcessingStage \<Rightarrow> string \<Rightarrow> update_call list \<Rightarrow> ProcessingStage list" where
  "requested_stages s file [] = []"
| "requested_stages s file (c # cs) =
     (let s1 = (if call_file c = file then call_stage c else s)
      in s1 # requested_stages s1 file cs)"

section \<open>Properties of the rounding \<open>fl\<close>\<close>

text \<open>
  \<open>fl\<close> is monotone, it is odd, it leaves every number \<open>k * 2 powi e\<close> with
  \<open>\<bar>k\<bar> \<le> 2 ^ 53\<close> unchanged, and it commutes with doubling.
\<close>

lemma p2_less_iff: "(2::real) powi a < 2 powi b \<longleftrightarrow> a < b"
proof
  assume l: "(2::real) powi a < 2 powi b"
  show "a < b"
  proof (rule ccontr)
    assume "\<not> a < b"
    then have "b \<le> a" by simp
    then have "(2::real) powi b \<le> 2 powi a" by (intro power_int_increasing) simp_all
    with l show False by simp
  qed
next
  assume "a < b"
  then show "(2::real) powi a < 2 powi b" by (intro power_int_strict_increasing) simp_all
qed

lemma p2_le_iff: "(2::real) powi a \<le> 2 powi b \<longleftrightarrow> a \<le> b"
  using p2_less_iff [of b a] by (simp add: not_less [symmetric])

lemma p2_Suc: "(2::real) powi (k + 1) = 2 * 2 powi k"
  by (simp add: power_int_add)

lemma ilog2_bounds:
  "0 < x \<Longrightarrow> 2 powi (ilog2 x) \<le> x \<and> x < 2 powi (ilog2 x + 1)"
proof (induction x rule: ilog2.induct)
  case (1 x)
  note pos = \<open>0 < x\<close>
  show ?case
  proof (cases "2 \<le> x")
    case True
    have ih: "2 powi (ilog2 (x / 2)) \<le> x / 2 \<and> x / 2 < 2 powi (ilog2 (x / 2) + 1)"
      by (rule "1.IH"(1)) (use True pos in simp_all)
    have e: "ilog2 x = ilog2 (x / 2) + 1" using True by (subst ilog2.simps) simp
    show ?thesis unfolding e p2_Suc using ih unfolding p2_Suc by linarith
  next
    case False
    show ?thesis
    proof (cases "x < 1")
      case True
      have ih: "2 powi (ilog2 (2 * x)) \<le> 2 * x \<and> 2 * x < 2 powi (ilog2 (2 * x) + 1)"
        by (rule "1.IH"(2)) (use True False pos in simp_all)
      have e: "ilog2 x + 1 = ilog2 (2 * x)" using True False pos by (subst ilog2.simps) simp
      have "2 powi (ilog2 x + 1) \<le> 2 * x \<and> 2 * x < 2 powi (ilog2 x + 1 + 1)"
        using ih unfolding e .
      then show ?thesis unfolding p2_Suc by linarith
    next
      case b: False
      have e: "ilog2 x = 0" using False b pos by (subst ilog2.simps) simp
      show ?thesis using False b unfolding e by simp
    qed
  qed
qed

lemma ilog2_unique:
  assumes "0 < x" "2 powi e \<le> x" "x < 2 powi (e + 1)"
  shows "ilog2 x = e"
proof -
  from ilog2_bounds [OF assms(1)]
  have b: "2 powi (ilog2 x) \<le> x" "x < 2 powi (ilog2 x + 1)" by simp_all
  have "(2::real) powi e < 2 powi (ilog2 x + 1)" using assms(2) b(2) by linarith
  then have 1: "e < ilog2 x + 1" by (simp add: p2_less_iff)
  have "(2::real) powi (ilog2 x) < 2 powi (e + 1)" using assms(3) b(1) by linarith
  then have 2: "ilog2 x < e + 1" by (simp add: p2_less_iff)
  from 1 2 show ?thesis by simp
qed

lemma ilog2_mono:
  assumes "0 < x" "x \<le> y"
  shows "ilog2 x \<le> ilog2 y"
proof -
  have y: "0 < y" using assms by simp
  from ilog2_bounds [OF assms(1)] ilog2_bounds [OF y]
  have "(2::real) powi (ilog2 x) < 2 powi (ilog2 y + 1)" using assms(2) by linarith
  then show ?thesis by (simp add: p2_less_iff)
qed

lemma round_even_cases: "round_even q = \<lfloor>q\<rfloor> \<or> round_even q = \<lfloor>q\<rfloor> + 1"
  by (simp add: round_even_def Let_def)

lemma round_even_of_int [simp]: "round_even (of_int n) = n"
  by (simp add: round_even_def)

lemma round_even_mono:
  assumes "q \<le> q'"
  shows "round_even q \<le> round_even q'"
proof (cases "\<lfloor>q\<rfloor> < \<lfloor>q'\<rfloor>")
  case True
  have "round_even q \<le> \<lfloor>q\<rfloor> + 1" using round_even_cases [of q] by auto
  moreover have "\<lfloor>q'\<rfloor> \<le> round_even q'" using round_even_cases [of q'] by auto
  ultimately show ?thesis using True by simp
next
  case False
  then have f: "\<lfloor>q\<rfloor> = \<lfloor>q'\<rfloor>" using assms floor_mono [of q q'] by simp
  show ?thesis using assms unfolding round_even_def Let_def f by auto
qed

lemma round_even_ge:
  "of_int n \<le> q \<Longrightarrow> n \<le> round_even q"
  using round_even_mono [of "of_int n" q] by simp

lemma round_even_le:
  "q \<le> of_int n \<Longrightarrow> round_even q \<le> n"
  using round_even_mono [of q "of_int n"] by simp

lemma fl_pos:
  assumes "0 < x"
  shows "fl x = of_int (round_even (x / 2 powi (ilog2 x - 52))) * 2 powi (ilog2 x - 52)"
  using assms by (simp add: fl_def Let_def)

lemma fl_pos_bounds:
  assumes "0 < x"
  shows "2 powi (ilog2 x) \<le> fl x \<and> fl x \<le> 2 powi (ilog2 x + 1)"
proof -
  define e where "e = ilog2 x"
  define u :: real where "u = 2 powi (e - 52)"
  have u: "0 < u" by (simp add: u_def)
  from ilog2_bounds [OF assms] have b: "2 powi e \<le> x" "x < 2 powi (e + 1)"
    by (simp_all add: e_def)
  have p1: "(2::real) powi e = 2 ^ 52 * u" by (simp add: u_def power_int_diff)
  have p2: "(2::real) powi (e + 1) = 2 ^ 53 * u" by (simp add: u_def power_int_diff power_int_add)
  have lo: "of_int (2 ^ 52) \<le> x / u" using b(1) u unfolding p1 by (simp add: field_simps)
  have hi: "x / u \<le> of_int (2 ^ 53)" using b(2) u unfolding p2 by (simp add: field_simps)
  have "2 ^ 52 \<le> round_even (x / u)" by (rule round_even_ge [OF lo])
  then have r1: "(2::real) ^ 52 \<le> of_int (round_even (x / u))"
    by (metis of_int_le_iff of_int_numeral of_int_power)
  have "round_even (x / u) \<le> 2 ^ 53" by (rule round_even_le [OF hi])
  then have r2: "of_int (round_even (x / u)) \<le> (2::real) ^ 53"
    by (metis of_int_le_iff of_int_numeral of_int_power)
  have f: "fl x = of_int (round_even (x / u)) * u"
    using fl_pos [OF assms] by (simp add: e_def u_def)
  show ?thesis unfolding f e_def [symmetric] p1 p2 using r1 r2 u by simp
qed

lemma fl_mono_pos:
  assumes "0 < x" "x \<le> y"
  shows "fl x \<le> fl y"
proof -
  have y: "0 < y" using assms by simp
  have le: "ilog2 x \<le> ilog2 y" by (rule ilog2_mono [OF assms])
  show ?thesis
  proof (cases "ilog2 x = ilog2 y")
    case True
    define u :: real where "u = 2 powi (ilog2 y - 52)"
    have u: "0 < u" by (simp add: u_def)
    have "x / u \<le> y / u" using assms(2) u by (simp add: divide_right_mono)
    then have "round_even (x / u) \<le> round_even (y / u)" by (rule round_even_mono)
    then have "(of_int (round_even (x / u)) :: real) \<le> of_int (round_even (y / u))" by simp
    then show ?thesis
      using u unfolding fl_pos [OF assms(1)] fl_pos [OF y] True u_def [symmetric] by simp
  next
    case False
    with le have "ilog2 x + 1 \<le> ilog2 y" by simp
    then have "(2::real) powi (ilog2 x + 1) \<le> 2 powi (ilog2 y)"
      by (simp add: p2_le_iff)
    with fl_pos_bounds [OF assms(1)] fl_pos_bounds [OF y] show ?thesis by linarith
  qed
qed

lemma fl_zero [simp]: "fl 0 = 0"
  by (simp add: fl_def)

lemma fl_minus: "fl (- x) = - fl x"
  by (simp add: fl_def Let_def sgn_minus)

lemma fl_pos_gt: "0 < x \<Longrightarrow> 0 < fl x"
proof -
  assume x: "0 < x"
  have "(0::real) < 2 powi (ilog2 x)" by simp
  with fl_pos_bounds [OF x] show ?thesis by linarith
qed

lemma fl_mono:
  assumes "x \<le> y"
  shows "fl x \<le> fl y"
proof -
  consider "0 < x" | "x = 0" "0 < y" | "x = 0" "y = 0" | "x < 0" "0 \<le> y" | "y < 0"
    using assms by linarith
  then show ?thesis
  proof cases
    case 1 then show ?thesis using assms by (simp add: fl_mono_pos)
  next
    case 2 then show ?thesis using fl_pos_gt [of y] by simp
  next
    case 3 then show ?thesis by simp
  next
    case 4
    have "0 < fl (- x)" using 4 by (simp add: fl_pos_gt)
    then have "fl x < 0" by (simp add: fl_minus)
    moreover have "0 \<le> fl y" using 4 fl_pos_gt [of y] by (cases "y = 0") auto
    ultimately show ?thesis by simp
  next
    case 5
    then have "fl (- y) \<le> fl (- x)" using assms by (intro fl_mono_pos) simp_all
    then show ?thesis by (simp add: fl_minus)
  qed
qed

lemma fl_exact_pos:
  assumes k: "0 < k" "k \<le> 2 ^ 53"
  shows "fl (of_int k * 2 powi e) = of_int k * 2 powi e"
proof -
  define x :: real where "x = of_int k * 2 powi e"
  have x: "0 < x" using k by (simp add: x_def)
  define E where "E = ilog2 x"
  from ilog2_bounds [OF x] have b: "2 powi E \<le> x" by (simp add: E_def)
  have "x \<le> 2 ^ 53 * 2 powi e"
  proof -
    have "(of_int k :: real) \<le> 2 ^ 53" using k(2) by (metis of_int_le_iff of_int_numeral of_int_power)
    then show ?thesis unfolding x_def by (simp add: mult_right_mono)
  qed
  also have "\<dots> = 2 powi (e + 53)" by (simp add: power_int_add)
  finally have "(2::real) powi E \<le> 2 powi (e + 53)" using b by linarith
  then have E: "E \<le> e + 53" by (simp add: p2_le_iff)
  show ?thesis
  proof (cases "E = e + 53")
    case True
    text \<open>then \<open>k = 2 ^ 53\<close>\<close>
    have "(2::real) powi (e + 53) \<le> of_int k * 2 powi e" using b True by (simp add: x_def)
    then have "(2::real) ^ 53 * 2 powi e \<le> of_int k * 2 powi e" by (simp add: power_int_add mult.commute)
    then have "(2::real) ^ 53 \<le> of_int k" by simp
    then have "2 ^ 53 \<le> k" by (metis of_int_le_iff of_int_numeral of_int_power)
    with k have kk: "k = 2 ^ 53" by simp
    have q: "x / 2 powi (E - 52) = of_int (2 ^ 52)"
      unfolding True x_def kk by (simp add: power_int_add power_int_diff field_simps)
    have "fl x = of_int (round_even (of_int (2 ^ 52))) * 2 powi (E - 52)"
      unfolding fl_pos [OF x] E_def [symmetric] q ..
    also have "\<dots> = x" unfolding round_even_of_int True x_def kk
      by (simp add: power_int_add power_int_diff field_simps)
    finally show ?thesis by (simp add: x_def)
  next
    case False
    with E have "0 \<le> e + 52 - E" by simp
    then obtain n where n: "e + 52 - E = int n" using nonneg_int_cases by blast
    have ee: "e = E - 52 + int n" using n by simp
    have q: "x / 2 powi (E - 52) = of_int (k * 2 ^ n)"
      unfolding x_def ee by (simp add: power_int_add)
    have "fl x = of_int (round_even (of_int (k * 2 ^ n))) * 2 powi (E - 52)"
      unfolding fl_pos [OF x] E_def [symmetric] q ..
    also have "\<dots> = x" unfolding round_even_of_int x_def ee by (simp add: power_int_add)
    finally show ?thesis by (simp add: x_def)
  qed
qed

lemma fl_of_int:
  assumes "\<bar>k\<bar> \<le> 2 ^ 53"
  shows "fl (of_int k) = of_int k"
proof -
  consider "0 < k" | "k = 0" | "k < 0" by linarith
  then show ?thesis
  proof cases
    case 1 then show ?thesis using fl_exact_pos [of k 0] assms by simp
  next
    case 2 then show ?thesis by simp
  next
    case 3
    then have "fl (of_int (- k)) = of_int (- k)" using fl_exact_pos [of "- k" 0] assms by simp
    then show ?thesis using fl_minus [of "of_int k"] by simp
  qed
qed

lemma fl_scale2:
  "fl (2 * x) = 2 * fl x"
proof -
  have pos: "fl (2 * y) = 2 * fl y" if y: "0 < y" for y
  proof -
    from ilog2_bounds [OF y] have "ilog2 (2 * y) = ilog2 y + 1"
      by (intro ilog2_unique) (simp_all add: y power_int_add)
    then show ?thesis
      using y by (simp add: fl_pos power_int_add power_int_diff field_simps)
  qed
  consider "0 < x" | "x = 0" | "x < 0" by linarith
  then show ?thesis
  proof cases
    case 1 then show ?thesis by (rule pos)
  next
    case 2 then show ?thesis by simp
  next
    case 3
    then have "fl (2 * (- x)) = 2 * fl (- x)" by (intro pos) simp
    then show ?thesis using fl_minus [of x] fl_minus [of "2 * x"] by simp
  qed
qed

section \<open>Metrics of a list of upload results\<close>

text \<open>
  Claim C2. For the empty list of upload results and any start and end time,
  \<open>_calculate_metrics\<close> returns (it does not raise), and every count, rate, duration
  percentile and API response time of the returned metrics is zero; this holds for
  every rounding of the float operations, since none is performed on these fields.
\<close>

theorem calculate_metrics_empty:
  "calculate_metrics rnd tname start_t end_t [] =
     Inr \<lparr> test_name = tname, start_time = start_t, end_time = end_t,
           total_files = 0, successful_uploads = 0, failed_uploads = 0,
           total_bytes = 0, total_duration = rnd (of_int (end_t - start_t) / 1000000),
           avg_throughput_mbps = 0, success_rate = 0, results = [],
           min_duration = 0, max_duration = 0, p50_duration = 0, p95_duration = 0,
           p99_duration = 0, avg_api_response_time = 0, min_api_response_time = 0,
           max_api_response_time = 0 \<rparr>"
  by (simp add: calculate_metrics_def)

lemma sort_eq_Nil_iff: "sort xs = [] \<longleftrightarrow> xs = []"
  by (metis length_0_conv length_sort)

lemma median_returns: "xs \<noteq> [] \<Longrightarrow> \<exists>v. median rnd xs = Inr v"
  by (simp add: median_def Let_def sort_eq_Nil_iff)

lemma quantiles_returns:
  "1 \<le> n \<Longrightarrow> 2 \<le> length xs \<Longrightarrow>
   quantiles rnd xs n = Inr (map (quantile_cut rnd (sort xs) n) [1..n - 1])"
  by (simp add: quantiles_def Let_def)

text \<open>
  The shape of the result: the metrics are always returned, with the three percentiles
  computed from the positive durations by \<open>median\<close>, \<open>quantiles\<close> and \<open>max\<close>.
\<close>

lemma calculate_metrics_form:
  fixes rs :: "UploadResult list"
  defines "ds \<equiv> map duration (filter (\<lambda>r. duration r > 0) rs)"
  obtains m where
    "calculate_metrics rnd tname start_t end_t rs = Inr m"
    "total_files m = length rs"
    "successful_uploads m = length (filter success rs)"
    "failed_uploads m = length (filter (\<lambda>r. \<not> success r) rs)"
    "success_rate m =
       (if rs \<noteq> []
        then rnd (rnd (of_nat (length (filter success rs)) / of_nat (length rs)) * 100)
        else 0)"
    "results m = rs"
    "min_duration m = (if ds \<noteq> [] then py_min ds else 0)"
    "max_duration m = (if ds \<noteq> [] then py_max ds else 0)"
    "(if ds \<noteq> [] then median rnd ds else Inr 0) = Inr (p50_duration m)"
    "p95_duration m =
       (if length ds \<ge> 20 then quantile_cut rnd (sort ds) 20 19
        else if ds \<noteq> [] then py_max ds else 0)"
    "p99_duration m =
       (if length ds \<ge> 100 then quantile_cut rnd (sort ds) 100 99
        else if ds \<noteq> [] then py_max ds else 0)"
proof -
  obtain p50 where p50: "(if ds \<noteq> [] then median rnd ds else Inr 0) = Inr p50"
    using median_returns [of ds rnd] by (cases "ds = []") auto
  have u20: "[1..19] ! 18 = (19::int)" by (simp add: upto.simps)
  have l20: "length [1..(19::int)] = 19" by simp
  have q20: "20 \<le> length ds \<Longrightarrow> quantiles rnd ds 20
      = Inr (map (quantile_cut rnd (sort ds) 20) [1..19])"
    using quantiles_returns [of 20 ds rnd] by simp
  have u100: "[1..99] ! 98 = (99::int)" by (simp add: nth_upto)
  have q100: "100 \<le> length ds \<Longrightarrow> quantiles rnd ds 100
      = Inr (map (quantile_cut rnd (sort ds) 100) [1..99])"
    using quantiles_returns [of 100 ds rnd] by simp
  define p95 where "p95 = (if length ds \<ge> 20 then quantile_cut rnd (sort ds) 20 19
        else if ds \<noteq> [] then py_max ds else 0)"
  define p99 where "p99 = (if length ds \<ge> 100 then quantile_cut rnd (sort ds) 100 99
        else if ds \<noteq> [] then py_max ds else 0)"
  have e95: "(if length ds \<ge> 20
             then (case quantiles rnd ds 20 of Inl e \<Rightarrow> Inl e | Inr qs \<Rightarrow> Inr (qs ! 18))
             else Inr (if ds \<noteq> [] then py_max ds else 0)) = Inr p95"
    using u20 by (simp add: p95_def q20 del: upto.simps)
  have e99: "(if length ds \<ge> 100
             then (case quantiles rnd ds 100 of Inl e \<Rightarrow> Inl e | Inr qs \<Rightarrow> Inr (qs ! 98))
             else Inr (if ds \<noteq> [] then py_max ds else 0)) = Inr p99"
    using u100 by (simp add: p99_def q100 del: upto.simps)
  obtain m where m: "calculate_metrics rnd tname start_t end_t rs = Inr m"
    and f: "total_files m = length rs"
      "successful_uploads m = length (filter success rs)"
      "failed_uploads m = length (filter (\<lambda>r. \<not> success r) rs)"
      "success_rate m =
         (if rs \<noteq> []
          then rnd (rnd (of_nat (length (filter success rs)) / of_nat (length rs)) * 100)
          else 0)"
      "results m = rs"
      "min_duration m = (if ds \<noteq> [] then py_min ds else 0)"
      "max_duration m = (if ds \<noteq> [] then py_max ds else 0)"
      "p50_duration m = p50" "p95_duration m = p95" "p99_duration m = p99"
    unfolding calculate_metrics_def Let_def ds_def [symmetric] p50 e95 e99 by simp
  show ?thesis
    by (rule that [OF m f(1-7)]) (simp_all add: f p50 p95_def p99_def)
qed

text \<open>
  Claim C3. For every non-empty list of upload results the metrics are returned, the
  number of files is the number of successes plus the number of failures, the successes
  are exactly the results with \<open>success = True\<close>, and the success rate is the float
  expression \<open>successful / total_files * 100\<close> (a division and a multiplication, each
  rounded; with \<open>rnd = id\<close> the exact quotient times 100).
\<close>

theorem success_rate_of_counts:
  assumes "rs \<noteq> []"
  shows "\<exists>m. calculate_metrics rnd tname start_t end_t rs = Inr m
           \<and> total_files m = successful_uploads m + failed_uploads m
           \<and> successful_uploads m = length (filter success rs)
           \<and> success_rate m
               = rnd (rnd (of_nat (successful_uploads m) / of_nat (total_files m)) * 100)"
proof -
  obtain m where m: "calculate_metrics rnd tname start_t end_t rs = Inr m"
    and c: "total_files m = length rs"
      "successful_uploads m = length (filter success rs)"
      "failed_uploads m = length (filter (\<lambda>r. \<not> success r) rs)"
      "success_rate m =
         (if rs \<noteq> []
          then rnd (rnd (of_nat (length (filter success rs)) / of_nat (length rs)) * 100)
          else 0)"
    by (rule calculate_metrics_form)
  have "length rs = length (filter success rs) + length (filter (\<lambda>r. \<not> success r) rs)"
    by (simp add: sum_length_filter_compl)
  then show ?thesis using m c assms by simp
qed

text \<open>An instance: one success and one failure, in exact arithmetic, give a rate of 50.\<close>

theorem success_rate_of_counts_witness:
  "\<exists>m. calculate_metrics id ''single_presigned'' 0 2000000
         [\<lparr> test_id = ''presigned_1'', file_name = ''a.wav'', file_size = 1048576,
            upload_method = ''presigned'', success = True, duration = 2, error = None,
            throughput_mbps = Some (1 / 2), response_data = None,
            api_response_time = Some 1, upload_time = Some 1 \<rparr>,
          \<lparr> test_id = ''single_presigned_2'', file_name = ''b.wav'', file_size = 2097152,
            upload_method = ''presigned'', success = False, duration = 0,
            error = Some (JStr ''timed out''), throughput_mbps = None, response_data = None,
            api_response_time = None, upload_time = None \<rparr>] = Inr m
       \<and> total_files m = 2 \<and> successful_uploads m = 1 \<and> failed_uploads m = 1
       \<and> success_rate m = 50"
proof -
  let ?rs = "[\<lparr> test_id = ''presigned_1'', file_name = ''a.wav'', file_size = 1048576,
            upload_method = ''presigned'', success = True, duration = 2, error = None,
            throughput_mbps = Some (1 / 2), response_data = None,
            api_response_time = Some 1, upload_time = Some 1 \<rparr>,
          \<lparr> test_id = ''single_presigned_2'', file_name = ''b.wav'', file_size = 2097152,
            upload_method = ''presigned'', success = False, duration = 0,
            error = Some (JStr ''timed out''), throughput_mbps = None, response_data = None,
            api_response_time = None, upload_time = None \<rparr>]"
  have ne: "?rs \<noteq> []" by simp
  from success_rate_of_counts [OF ne, of id "''single_presigned''" 0 2000000]
  obtain m where m: "calculate_metrics id ''single_presigned'' 0 2000000 ?rs = Inr m"
    and t: "total_files m = successful_uploads m + failed_uploads m"
    and s: "successful_uploads m = length (filter success ?rs)"
    and r: "success_rate m = id (id (of_nat (successful_uploads m) / of_nat (total_files m)) * 100)"
    by blast
  obtain m' where m': "calculate_metrics id ''single_presigned'' 0 2000000 ?rs = Inr m'"
    and c: "total_files m' = length ?rs"
    by (rule calculate_metrics_form)
  from m m' have "m' = m" by simp
  with c have tf: "total_files m = 2" by simp
  from s have su: "successful_uploads m = 1" by simp
  from t tf su have fu: "failed_uploads m = 1" by simp
  from r tf su have "success_rate m = 50" by simp
  with m tf su fu show ?thesis by blast
qed

section \<open>Duration percentiles\<close>

lemma py_min_eq: "xs \<noteq> [] \<Longrightarrow> py_min xs = Min (set xs)"
  by (cases xs) (simp_all add: py_min_def Min.set_eq_fold [symmetric])

lemma py_max_eq: "xs \<noteq> [] \<Longrightarrow> py_max xs = Max (set xs)"
  by (cases xs) (simp_all add: py_max_def Max.set_eq_fold [symmetric])

lemma sorted_data_bounds:
  assumes "k < length ds"
  shows "py_min ds \<le> sort ds ! k \<and> sort ds ! k \<le> py_max ds"
proof -
  have ne: "ds \<noteq> []" using assms by auto
  have "sort ds ! k \<in> set (sort ds)" using assms by (intro nth_mem) simp
  then have "sort ds ! k \<in> set ds" by simp
  then show ?thesis by (simp add: py_min_eq [OF ne] py_max_eq [OF ne])
qed

lemma sorted_data_mono:
  "i \<le> j \<Longrightarrow> j < length ds \<Longrightarrow> sort ds ! i \<le> sort ds ! j"
  by (intro sorted_nth_mono) simp_all

lemma median_exact_bounds:
  assumes "ds \<noteq> []" and "median id ds = Inr v"
  shows "py_min ds \<le> v \<and> v \<le> sort ds ! (length ds div 2)"
proof (cases "length ds mod 2 = 1")
  case True
  with assms have "v = sort ds ! (length ds div 2)"
    by (simp add: median_def Let_def sort_eq_Nil_iff)
  moreover have "length ds div 2 < length ds" using assms(1) by simp
  ultimately show ?thesis using sorted_data_bounds by simp
next
  case False
  define i where "i = length ds div 2"
  from False assms(1) have i: "1 \<le> i" "i < length ds" "i - 1 < length ds"
    unfolding i_def by (cases ds; simp; presburger)+
  from False assms have v: "v = (sort ds ! (i - 1) + sort ds ! i) / 2"
    by (simp add: median_def Let_def i_def sort_eq_Nil_iff)
  have "sort ds ! (i - 1) \<le> sort ds ! i" using i by (intro sorted_data_mono) simp_all
  moreover have "py_min ds \<le> sort ds ! (i - 1)" using sorted_data_bounds [OF i(3)] by simp
  ultimately show ?thesis unfolding v i_def [symmetric] by simp
qed

lemma quantile_cut_exact_between:
  fixes data :: "real list"
  assumes srt: "sorted data" and n: "0 < n"
    and lo: "1 \<le> i * (int (length data) + 1) div n"
    and hi: "i * (int (length data) + 1) div n \<le> int (length data) - 1"
  shows "data ! nat (i * (int (length data) + 1) div n - 1) \<le> quantile_cut id data n i
         \<and> quantile_cut id data n i \<le> data ! nat (i * (int (length data) + 1) div n)"
proof -
  define j where "j = i * (int (length data) + 1) div n"
  define delta where "delta = i * (int (length data) + 1) - j * n"
  define a where "a = data ! nat (j - 1)"
  define b where "b = data ! nat j"
  have d: "0 \<le> delta" "delta < n"
  proof -
    have "delta = (i * (int (length data) + 1)) mod n"
      unfolding delta_def j_def by (simp add: minus_div_mult_eq_mod)
    then show "0 \<le> delta" "delta < n" using n by simp_all
  qed
  have ab: "a \<le> b"
    unfolding a_def b_def using lo hi srt
    by (intro sorted_nth_mono) (simp_all add: j_def)
  have q: "quantile_cut id data n i = (a * of_int (n - delta) + b * of_int delta) / of_int n"
    using lo hi unfolding quantile_cut_def Let_def j_def [symmetric]
    by (simp add: a_def b_def delta_def)
  have nn: "(0::real) < of_int n" using n by simp
  have s: "of_int (n - delta) + of_int delta = (of_int n :: real)" by simp
  have d1: "(0::real) \<le> of_int delta" "(0::real) \<le> of_int (n - delta)" using d by simp_all
  have "a * of_int n = a * of_int (n - delta) + a * of_int delta"
    unfolding s [symmetric] by (simp add: algebra_simps)
  also have "\<dots> \<le> a * of_int (n - delta) + b * of_int delta"
    using ab d1 by (simp add: mult_right_mono)
  finally have l: "a \<le> (a * of_int (n - delta) + b * of_int delta) / of_int n"
    using nn by (simp add: pos_le_divide_eq)
  have "a * of_int (n - delta) + b * of_int delta \<le> b * of_int (n - delta) + b * of_int delta"
    using ab d1 by (simp add: mult_right_mono)
  also have "\<dots> = b * of_int n" unfolding s [symmetric] by (simp add: algebra_simps)
  finally have u: "(a * of_int (n - delta) + b * of_int delta) / of_int n \<le> b"
    using nn by (simp add: pos_divide_le_eq)
  show ?thesis using l u unfolding q a_def b_def j_def by simp
qed

lemma div_bounds_20: "20 * (x div 20) \<le> x \<and> x < 20 * (x div 20) + 20" for x :: int
  by presburger

lemma div_bounds_100: "100 * (x div 100) \<le> x \<and> x < 100 * (x div 100) + 100" for x :: int
  by presburger

lemma index95:
  assumes "20 \<le> ld"
  shows "1 \<le> 19 * (int ld + 1) div 20 \<and> 19 * (int ld + 1) div 20 \<le> int ld - 1
         \<and> int (ld div 2) \<le> 19 * (int ld + 1) div 20 - 1"
proof -
  define L where "L = int ld"
  define q where "q = (19 * L + 19) div 20"
  define h where "h = int (ld div 2)"
  have e: "19 * (L + 1) = 19 * L + 19" by simp
  have L: "20 \<le> L" using assms by (simp add: L_def)
  have h: "2 * h \<le> L" unfolding h_def L_def by linarith
  have q: "20 * q \<le> 19 * L + 19" "19 * L + 19 < 20 * q + 20"
    using div_bounds_20 [of "19 * L + 19"] by (simp_all add: q_def)
  have "1 \<le> q \<and> q \<le> L - 1 \<and> h \<le> q - 1" using L q h by linarith
  then show ?thesis unfolding L_def [symmetric] h_def [symmetric] e q_def [symmetric] .
qed

lemma index99:
  assumes "100 \<le> ld"
  shows "1 \<le> 99 * (int ld + 1) div 100 \<and> 99 * (int ld + 1) div 100 \<le> int ld - 1
         \<and> 19 * (int ld + 1) div 20 \<le> 99 * (int ld + 1) div 100 - 1"
proof -
  define L where "L = int ld"
  define q where "q = (19 * L + 19) div 20"
  define p where "p = (99 * L + 99) div 100"
  have e: "19 * (L + 1) = 19 * L + 19" "99 * (L + 1) = 99 * L + 99"
    by simp_all
  have L: "100 \<le> L" using assms by (simp add: L_def)
  have q: "20 * q \<le> 19 * L + 19" "19 * L + 19 < 20 * q + 20"
    using div_bounds_20 [of "19 * L + 19"] by (simp_all add: q_def)
  have p: "100 * p \<le> 99 * L + 99" "99 * L + 99 < 100 * p + 100"
    using div_bounds_100 [of "99 * L + 99"] by (simp_all add: p_def)
  have "1 \<le> p \<and> p \<le> L - 1 \<and> q \<le> p - 1" using L q p by linarith
  then show ?thesis unfolding L_def [symmetric] e q_def [symmetric] p_def [symmetric] .
qed

lemma median_fl_bounds:
  assumes ne: "ds \<noteq> []" and rep: "\<forall>d\<in>set ds. fl d = d" and med: "median fl ds = Inr v"
  shows "py_min ds \<le> v \<and> v \<le> py_max ds"
proof (cases "length ds mod 2 = 1")
  case True
  with ne med have "v = sort ds ! (length ds div 2)"
    by (simp add: median_def Let_def sort_eq_Nil_iff)
  moreover have "length ds div 2 < length ds" using ne by simp
  ultimately show ?thesis using sorted_data_bounds by simp
next
  case False
  define i where "i = length ds div 2"
  define a where "a = sort ds ! (i - 1)"
  define b where "b = sort ds ! i"
  from False ne have i: "1 \<le> i" "i < length ds" "i - 1 < length ds"
    unfolding i_def by (cases ds; simp; presburger)+
  from False ne med have v: "v = fl (fl (a + b) / 2)"
    by (simp add: median_def Let_def i_def a_def b_def sort_eq_Nil_iff)
  have ab: "a \<le> b" unfolding a_def b_def using i by (intro sorted_data_mono) simp_all
  have "a \<in> set (sort ds)" "b \<in> set (sort ds)"
    unfolding a_def b_def using i by (simp_all del: set_sort)
  then have fa: "fl a = a" and fb: "fl b = b" using rep by simp_all
  have "2 * a \<le> a + b" "a + b \<le> 2 * b" using ab by simp_all
  from fl_mono [OF this(1)] fl_mono [OF this(2)]
  have "2 * a \<le> fl (a + b)" "fl (a + b) \<le> 2 * b" by (simp_all add: fl_scale2 fa fb)
  then have "a \<le> fl (a + b) / 2" "fl (a + b) / 2 \<le> b" by simp_all
  from fl_mono [OF this(1)] fl_mono [OF this(2)]
  have "a \<le> v" "v \<le> b" by (simp_all add: v fa fb)
  moreover have "py_min ds \<le> a" "b \<le> py_max ds"
    using sorted_data_bounds [OF i(3)] sorted_data_bounds [OF i(2)] by (simp_all add: a_def b_def)
  ultimately show ?thesis by simp
qed

lemma percentile_chain_exact:
  assumes ne: "ds \<noteq> []" and med: "median id ds = Inr p50"
  defines "p95 \<equiv> (if length ds \<ge> 20 then quantile_cut id (sort ds) 20 19 else py_max ds)"
  defines "p99 \<equiv> (if length ds \<ge> 100 then quantile_cut id (sort ds) 100 99 else py_max ds)"
  shows "py_min ds \<le> p50 \<and> p50 \<le> p95 \<and> p95 \<le> p99 \<and> p99 \<le> py_max ds"
proof -
  define data where "data = sort ds"
  define ld where "ld = length ds"
  have srt: "sorted data" and len: "length data = ld" by (simp_all add: data_def ld_def)
  have bnd: "py_min ds \<le> data ! k \<and> data ! k \<le> py_max ds" if "k < ld" for k
    using sorted_data_bounds [of k ds] that by (simp add: data_def ld_def)
  have mono: "data ! i \<le> data ! j" if "i \<le> j" "j < ld" for i j
    using sorted_data_mono [of i j ds] that by (simp add: data_def ld_def)
  have m: "py_min ds \<le> p50" "p50 \<le> data ! (ld div 2)"
    using median_exact_bounds [OF ne med] by (simp_all add: data_def ld_def)
  have half: "ld div 2 < ld" using ne by (simp add: ld_def)
  show ?thesis
  proof (cases "20 \<le> ld")
    case False
    then have "p95 = py_max ds" "p99 = py_max ds" by (simp_all add: p95_def p99_def ld_def)
    moreover have "data ! (ld div 2) \<le> py_max ds" using bnd [OF half] by simp
    ultimately show ?thesis using m by simp
  next
    case True
    define j where "j = 19 * (int ld + 1) div 20"
    from index95 [OF True] have j: "1 \<le> j" "j \<le> int ld - 1" "int (ld div 2) \<le> j - 1"
      by (simp_all add: j_def)
    have c95: "p95 = quantile_cut id data 20 19" using True by (simp add: p95_def ld_def data_def)
    have "data ! nat (19 * (int (length data) + 1) div 20 - 1) \<le> quantile_cut id data 20 19
         \<and> quantile_cut id data 20 19 \<le> data ! nat (19 * (int (length data) + 1) div 20)"
      by (rule quantile_cut_exact_between [OF srt]) (use j in \<open>simp_all add: len j_def\<close>)
    then have b95: "data ! nat (j - 1) \<le> p95" "p95 \<le> data ! nat j"
      by (simp_all add: c95 len j_def)
    have "data ! (ld div 2) \<le> data ! nat (j - 1)" using j by (intro mono) linarith+
    with m b95 have lo: "py_min ds \<le> p50" "p50 \<le> p95" by simp_all
    have jl: "nat j < ld" using j by linarith
    show ?thesis
    proof (cases "100 \<le> ld")
      case False
      then have "p99 = py_max ds" by (simp add: p99_def ld_def)
      moreover have "data ! nat j \<le> py_max ds" using bnd [OF jl] by simp
      ultimately show ?thesis using lo b95 by simp
    next
      case big: True
      define k where "k = 99 * (int ld + 1) div 100"
      from index99 [OF big] have k: "1 \<le> k" "k \<le> int ld - 1" "j \<le> k - 1"
        by (simp_all add: k_def j_def)
      have c99: "p99 = quantile_cut id data 100 99" using big by (simp add: p99_def ld_def data_def)
      have "data ! nat (99 * (int (length data) + 1) div 100 - 1) \<le> quantile_cut id data 100 99
           \<and> quantile_cut id data 100 99 \<le> data ! nat (99 * (int (length data) + 1) div 100)"
        by (rule quantile_cut_exact_between [OF srt]) (use k in \<open>simp_all add: len k_def\<close>)
      then have b99: "data ! nat (k - 1) \<le> p99" "p99 \<le> data ! nat k"
        by (simp_all add: c99 len k_def)
      have "data ! nat j \<le> data ! nat (k - 1)" using j k by (intro mono) linarith+
      moreover have "data ! nat k \<le> py_max ds" using k by (intro bnd [THEN conjunct2]) linarith
      ultimately show ?thesis using lo b95 b99 by simp
    qed
  qed
qed

text \<open>
  Claim C4, as the code has it. Let the list of results have a positive duration.
  In exact arithmetic the metrics satisfy
  \<open>min_duration \<le> p50_duration \<le> p95_duration \<le> p99_duration \<le> max_duration\<close>.
  In binary64 (each duration a float), for every number of positive durations,
  \<open>min_duration \<le> p50_duration \<le> max_duration\<close>; \<open>p99_duration\<close> is \<open>max_duration\<close> with
  fewer than 100 positive durations and \<open>p95_duration\<close> is \<open>max_duration\<close> with fewer than 20,
  so that with fewer than 20 the whole chain holds. What binary64 loses are the links
  through an interpolated percentile only: \<open>p95\<close> from 20 positive durations on, \<open>p99\<close> from
  100 on.
\<close>

theorem percentile_order:
  assumes "filter (\<lambda>r. duration r > 0) rs \<noteq> []"
  shows "(\<exists>m. calculate_metrics id tname start_t end_t rs = Inr m
            \<and> min_duration m \<le> p50_duration m \<and> p50_duration m \<le> p95_duration m
            \<and> p95_duration m \<le> p99_duration m \<and> p99_duration m \<le> max_duration m)
       \<and> ((\<forall>r\<in>set rs. fl (duration r) = duration r)
          \<longrightarrow> (\<exists>m. calculate_metrics fl tname start_t end_t rs = Inr m
                 \<and> min_duration m \<le> p50_duration m \<and> p50_duration m \<le> max_duration m
                 \<and> (length (filter (\<lambda>r. duration r > 0) rs) < 100
                      \<longrightarrow> p99_duration m = max_duration m)
                 \<and> (length (filter (\<lambda>r. duration r > 0) rs) < 20
                      \<longrightarrow> p95_duration m = max_duration m
                          \<and> min_duration m \<le> p50_duration m \<and> p50_duration m \<le> p95_duration m
                          \<and> p95_duration m \<le> p99_duration m
                          \<and> p99_duration m \<le> max_duration m)))"
proof (intro conjI impI)
  define ds where "ds = map duration (filter (\<lambda>r. duration r > 0) rs)"
  have ne: "ds \<noteq> []" using assms by (simp add: ds_def)
  obtain m where m: "calculate_metrics id tname start_t end_t rs = Inr m"
    and f: "min_duration m = (if ds \<noteq> [] then py_min ds else 0)"
      "max_duration m = (if ds \<noteq> [] then py_max ds else 0)"
      "(if ds \<noteq> [] then median id ds else Inr 0) = Inr (p50_duration m)"
      "p95_duration m =
         (if length ds \<ge> 20 then quantile_cut id (sort ds) 20 19
          else if ds \<noteq> [] then py_max ds else 0)"
      "p99_duration m =
         (if length ds \<ge> 100 then quantile_cut id (sort ds) 100 99
          else if ds \<noteq> [] then py_max ds else 0)"
    unfolding ds_def by (rule calculate_metrics_form)
  from f(3) ne have med: "median id ds = Inr (p50_duration m)" by simp
  have e: "min_duration m = py_min ds" "max_duration m = py_max ds"
    "p95_duration m = (if length ds \<ge> 20 then quantile_cut id (sort ds) 20 19 else py_max ds)"
    "p99_duration m = (if length ds \<ge> 100 then quantile_cut id (sort ds) 100 99 else py_max ds)"
    using f ne by simp_all
  have "min_duration m \<le> p50_duration m \<and> p50_duration m \<le> p95_duration m
        \<and> p95_duration m \<le> p99_duration m \<and> p99_duration m \<le> max_duration m"
    unfolding e by (rule percentile_chain_exact [OF ne med])
  with m show "\<exists>m. calculate_metrics id tname start_t end_t rs = Inr m
            \<and> min_duration m \<le> p50_duration m \<and> p50_duration m \<le> p95_duration m
            \<and> p95_duration m \<le> p99_duration m \<and> p99_duration m \<le> max_duration m"
    by blast
next
  assume a: "\<forall>r\<in>set rs. fl (duration r) = duration r"
  define ds where "ds = map duration (filter (\<lambda>r. duration r > 0) rs)"
  have ne: "ds \<noteq> []" using assms by (simp add: ds_def)
  have rep: "\<forall>d\<in>set ds. fl d = d" using a by (auto simp: ds_def)
  have len: "length (filter (\<lambda>r. duration r > 0) rs) = length ds" by (simp add: ds_def)
  obtain m where m: "calculate_metrics fl tname start_t end_t rs = Inr m"
    and f: "min_duration m = (if ds \<noteq> [] then py_min ds else 0)"
      "max_duration m = (if ds \<noteq> [] then py_max ds else 0)"
      "(if ds \<noteq> [] then median fl ds else Inr 0) = Inr (p50_duration m)"
      "p95_duration m =
         (if length ds \<ge> 20 then quantile_cut fl (sort ds) 20 19
          else if ds \<noteq> [] then py_max ds else 0)"
      "p99_duration m =
         (if length ds \<ge> 100 then quantile_cut fl (sort ds) 100 99
          else if ds \<noteq> [] then py_max ds else 0)"
    unfolding ds_def by (rule calculate_metrics_form)
  from f(3) ne have med: "median fl ds = Inr (p50_duration m)" by simp
  have e: "min_duration m = py_min ds" "max_duration m = py_max ds"
    using f ne by simp_all
  have e99: "p99_duration m = py_max ds" if "length ds < 100"
    using f(5) ne that by simp
  have e95: "p95_duration m = py_max ds" if "length ds < 20"
    using f(4) ne that by simp
  from median_fl_bounds [OF ne rep med]
  have b: "min_duration m \<le> p50_duration m" "p50_duration m \<le> max_duration m"
    unfolding e by simp_all
  have "min_duration m \<le> p50_duration m \<and> p50_duration m \<le> max_duration m
        \<and> (length ds < 100 \<longrightarrow> p99_duration m = max_duration m)
        \<and> (length ds < 20
             \<longrightarrow> p95_duration m = max_duration m
                 \<and> min_duration m \<le> p50_duration m \<and> p50_duration m \<le> p95_duration m
                 \<and> p95_duration m \<le> p99_duration m
                 \<and> p99_duration m \<le> max_duration m)"
    using b e95 e99 by (simp add: e)
  with m show "\<exists>m. calculate_metrics fl tname start_t end_t rs = Inr m
                 \<and> min_duration m \<le> p50_duration m \<and> p50_duration m \<le> max_duration m
                 \<and> (length (filter (\<lambda>r. duration r > 0) rs) < 100
                      \<longrightarrow> p99_duration m = max_duration m)
                 \<and> (length (filter (\<lambda>r. duration r > 0) rs) < 20
                      \<longrightarrow> p95_duration m = max_duration m
                          \<and> min_duration m \<le> p50_duration m \<and> p50_duration m \<le> p95_duration m
                          \<and> p95_duration m \<le> p99_duration m
                          \<and> p99_duration m \<le> max_duration m)"
    unfolding len by blast
qed

text \<open>An instance: three results with durations of 1, 2 and 4 seconds, in binary64.\<close>

theorem percentile_order_witness:
  "\<exists>m. calculate_metrics fl ''single_presigned'' 0 7000000
         [\<lparr> test_id = ''presigned_1'', file_name = ''a.wav'', file_size = 1048576,
            upload_method = ''presigned'', success = True, duration = 1, error = None,
            throughput_mbps = Some 1, response_data = None,
            api_response_time = None, upload_time = Some 1 \<rparr>,
          \<lparr> test_id = ''presigned_2'', file_name = ''b.wav'', file_size = 1048576,
            upload_method = ''presigned'', success = True, duration = 4, error = None,
            throughput_mbps = Some (1 / 4), response_data = None,
            api_response_time = None, upload_time = Some 4 \<rparr>,
          \<lparr> test_id = ''presigned_3'', file_name = ''c.wav'', file_size = 1048576,
            upload_method = ''presigned'', success = True, duration = 2, error = None,
            throughput_mbps = Some (1 / 2), response_data = None,
            api_response_time = None, upload_time = Some 2 \<rparr>] = Inr m
       \<and> min_duration m \<le> p50_duration m \<and> p50_duration m \<le> p95_duration m
       \<and> p95_duration m \<le> p99_duration m \<and> p99_duration m \<le> max_duration m
       \<and> p95_duration m = max_duration m \<and> p99_duration m = max_duration m"
proof -
  let ?rs = "[\<lparr> test_id = ''presigned_1'', file_name = ''a.wav'', file_size = 1048576,
            upload_method = ''presigned'', success = True, duration = 1, error = None,
            throughput_mbps = Some 1, response_data = None,
            api_response_time = None, upload_time = Some 1 \<rparr>,
          \<lparr> test_id = ''presigned_2'', file_name = ''b.wav'', file_size = 1048576,
            upload_method = ''presigned'', success = True, duration = 4, error = None,
            throughput_mbps = Some (1 / 4), response_data = None,
            api_response_time = None, upload_time = Some 4 \<rparr>,
          \<lparr> test_id = ''presigned_3'', file_name = ''c.wav'', file_size = 1048576,
            upload_method = ''presigned'', success = True, duration = 2, error = None,
            throughput_mbps = Some (1 / 2), response_data = None,
            api_response_time = None, upload_time = Some 2 \<rparr>]"
  have 1: "filter (\<lambda>r. duration r > 0) ?rs \<noteq> []" by simp
  have fls: "fl 1 = 1" "fl 2 = 2" "fl 4 = 4"
    using fl_of_int [of 1] fl_of_int [of 2] fl_of_int [of 4] by simp_all
  have 2: "\<forall>r\<in>set ?rs. fl (duration r) = duration r"
    by (simp add: fls)
  have 3: "length (filter (\<lambda>r. duration r > 0) ?rs) < 100"
    "length (filter (\<lambda>r. duration r > 0) ?rs) < 20" by simp_all
  from percentile_order [OF 1, of "''single_presigned''" 0 7000000, THEN conjunct2, THEN mp, OF 2]
  obtain m where m: "calculate_metrics fl ''single_presigned'' 0 7000000 ?rs = Inr m"
    and b: "length (filter (\<lambda>r. duration r > 0) ?rs) < 100 \<longrightarrow> p99_duration m = max_duration m"
      "length (filter (\<lambda>r. duration r > 0) ?rs) < 20
         \<longrightarrow> p95_duration m = max_duration m
             \<and> min_duration m \<le> p50_duration m \<and> p50_duration m \<le> p95_duration m
             \<and> p95_duration m \<le> p99_duration m
             \<and> p99_duration m \<le> max_duration m"
    by blast
  from b(1) 3(1) b(2) 3(2) have "min_duration m \<le> p50_duration m \<and> p50_duration m \<le> p95_duration m
       \<and> p95_duration m \<le> p99_duration m \<and> p99_duration m \<le> max_duration m
       \<and> p95_duration m = max_duration m \<and> p99_duration m = max_duration m" by blast
  with m show ?thesis by blast
qed

lemma sort_replicate: "sort (replicate n x) = replicate n x"
  by (induction n) (simp_all add: insort_is_Cons)

lemma median_fl_equal_20:
  "median fl (replicate 20 (7926335344172073 / 72057594037927936))
     = Inr (7926335344172073 / 72057594037927936)"
  by (simp add: median_def Let_def sort_replicate fl_def ilog2.simps round_even_def)

lemma quantile_cut_fl_equal_20:
  "quantile_cut fl (replicate 20 (7926335344172073 / 72057594037927936)) 20 19
     = 990791918021509 / 9007199254740992"
  by (simp add: quantile_cut_def Let_def fl_def ilog2.simps round_even_def)

text \<open>
  Claim C4 as stated fails in binary64. Twenty uploads of a batch each lasted 0.11
  seconds (the float \<open>7926335344172073 / 2 ** 56\<close>). The median is 0.11; the 95th
  percentile is
  \<open>(0.11 * 1 + 0.11 * 19) / 20\<close>, which rounds to the float below 0.11, so
  \<open>p50_duration \<le> p95_duration\<close> is false.
\<close>

theorem percentile_order_counterexample:
  "map_sum id p50_duration
     (calculate_metrics fl ''stress'' 0 60000000
        (replicate 20
           \<lparr> test_id = ''batch_1_a.wav'', file_name = ''a.wav'', file_size = 1048576,
             upload_method = ''batch_presigned'', success = True,
             duration = 7926335344172073 / 72057594037927936, error = None,
             throughput_mbps = Some (5117726849284655 / 562949953421312),
             response_data = Some (JObj [(''message'', JStr ''Upload successful'')]),
             api_response_time = Some (1 / 8),
             upload_time = Some (7926335344172073 / 72057594037927936) \<rparr>))
     = Inr (7926335344172073 / 72057594037927936)
   \<and> map_sum id p95_duration
     (calculate_metrics fl ''stress'' 0 60000000
        (replicate 20
           \<lparr> test_id = ''batch_1_a.wav'', file_name = ''a.wav'', file_size = 1048576,
             upload_method = ''batch_presigned'', success = True,
             duration = 7926335344172073 / 72057594037927936, error = None,
             throughput_mbps = Some (5117726849284655 / 562949953421312),
             response_data = Some (JObj [(''message'', JStr ''Upload successful'')]),
             api_response_time = Some (1 / 8),
             upload_time = Some (7926335344172073 / 72057594037927936) \<rparr>))
     = Inr (990791918021509 / 9007199254740992)
   \<and> \<not> ((7926335344172073 / 72057594037927936 :: real) \<le> 990791918021509 / 9007199254740992)"
proof -
  let ?r = "\<lparr> test_id = ''batch_1_a.wav'', file_name = ''a.wav'', file_size = 1048576,
             upload_method = ''batch_presigned'', success = True,
             duration = 7926335344172073 / 72057594037927936, error = None,
             throughput_mbps = Some (5117726849284655 / 562949953421312),
             response_data = Some (JObj [(''message'', JStr ''Upload successful'')]),
             api_response_time = Some (1 / 8),
             upload_time = Some (7926335344172073 / 72057594037927936) \<rparr>"
  let ?d = "7926335344172073 / 72057594037927936 :: real"
  define ds where "ds = map duration (filter (\<lambda>r. duration r > 0) (replicate 20 ?r))"
  obtain m where m: "calculate_metrics fl ''stress'' 0 60000000 (replicate 20 ?r) = Inr m"
    and f0: "(if ds \<noteq> [] then median fl ds else Inr 0) = Inr (p50_duration m)"
      "p95_duration m =
         (if length ds \<ge> 20 then quantile_cut fl (sort ds) 20 19
          else if ds \<noteq> [] then py_max ds else 0)"
    unfolding ds_def by (rule calculate_metrics_form)
  have ds: "ds = replicate 20 ?d" by (simp add: ds_def)
  note f = f0 [unfolded ds]
  have "p50_duration m = ?d" using f(1) by (simp add: median_fl_equal_20)
  moreover have "p95_duration m = 990791918021509 / 9007199254740992"
    using f(2) by (simp add: sort_replicate quantile_cut_fl_equal_20)
  ultimately show ?thesis by (simp add: m)
qed

section \<open>The upload client\<close>

lemma upload_direct_cases:
  fixes s :: session
  shows "\<exists>r. upload_direct rnd s base clk fdata fname = Inr r"
    and "post s (base @ ''/api/upload'') (Multipart ''files'' fname fdata ''audio/wav'') = Inl e \<Longrightarrow>
           upload_direct rnd s base clk fdata fname
             = Inr (False, JObj [(''error'', JStr (exn_text e))], rnd (clk 1 - clk 0))"
    and "post s (base @ ''/api/upload'') (Multipart ''files'' fname fdata ''audio/wav'') = Inr resp
         \<Longrightarrow> status_code resp \<noteq> 200 \<Longrightarrow>
           upload_direct rnd s base clk fdata fname
             = Inr (False,
                    JObj [(''error'', JStr (''HTTP '' @ str_int (status_code resp) @ '': ''
                                           @ response_text resp))],
                    rnd (clk 1 - clk 0))"
  unfolding upload_direct_def Let_def exception_payload_def http_error_payload_def
  by (auto split: sum.splits)

lemma get_presigned_url_cases:
  fixes s :: session
  shows "\<exists>r. get_presigned_url rnd s base clk fname = Inr r"
    and "post s (base @ ''/api/upload/presigned'') (JsonBody (JObj [(''filename'', JStr fname)]))
           = Inl e \<Longrightarrow>
           get_presigned_url rnd s base clk fname
             = Inr (False, JObj [(''error'', JStr (exn_text e))], rnd (clk 1 - clk 0))"
    and "post s (base @ ''/api/upload/presigned'') (JsonBody (JObj [(''filename'', JStr fname)]))
           = Inr resp \<Longrightarrow> status_code resp \<noteq> 200 \<Longrightarrow>
           get_presigned_url rnd s base clk fname
             = Inr (False,
                    JObj [(''error'', JStr (''HTTP '' @ str_int (status_code resp) @ '': ''
                                           @ response_text resp))],
                    rnd (clk 1 - clk 0))"
  unfolding get_presigned_url_def Let_def exception_payload_def http_error_payload_def
  by (auto split: sum.splits)

lemma upload_presigned_cases:
  fixes s :: session
  shows "\<exists>r. upload_presigned rnd s clk url fdata = Inr r"
    and "put s url (RawBody fdata [(''Content-Type'', ''audio/wav'')]) = Inl e \<Longrightarrow>
           upload_presigned rnd s clk url fdata
             = Inr (False, JObj [(''error'', JStr (exn_text e))], rnd (clk 1 - clk 0))"
    and "put s url (RawBody fdata [(''Content-Type'', ''audio/wav'')]) = Inr resp \<Longrightarrow>
         status_code resp \<noteq> 200 \<Longrightarrow> status_code resp \<noteq> 204 \<Longrightarrow>
           upload_presigned rnd s clk url fdata
             = Inr (False,
                    JObj [(''error'', JStr (''HTTP '' @ str_int (status_code resp) @ '': ''
                                           @ response_text resp))],
                    rnd (clk 1 - clk 0))"
  unfolding upload_presigned_def Let_def exception_payload_def http_error_payload_def
  by (auto split: sum.splits)

lemma send_never_returns_forced:
  "send n att k = Inr resp \<Longrightarrow> status_code resp \<notin> set status_forcelist"
  by (induction n arbitrary: k) (auto simp: is_retry_def split: attempt.splits if_splits)

lemma send_forced_exhausted:
  assumes "\<forall>j\<le>n. \<exists>r. att (k + j) = Response r \<and> status_code r \<in> set status_forcelist"
  shows "\<exists>r. att (k + n) = Response r
             \<and> send n att k = Inl (RetryError (max_retry_text (response_error r)))"
  using assms
proof (induction n arbitrary: k)
  case 0
  then obtain r where "att k = Response r" "status_code r \<in> set status_forcelist" by auto
  then show ?case by (simp add: is_retry_def)
next
  case (Suc n)
  from Suc.prems [rule_format, of 0]
  obtain r0 where r0: "att k = Response r0" "status_code r0 \<in> set status_forcelist" by auto
  have "\<forall>j\<le>n. \<exists>r. att (Suc k + j) = Response r \<and> status_code r \<in> set status_forcelist"
  proof (intro allI impI)
    fix j assume "j \<le> n"
    then have "Suc j \<le> Suc n" by simp
    from Suc.prems [rule_format, OF this] show
      "\<exists>r. att (Suc k + j) = Response r \<and> status_code r \<in> set status_forcelist" by simp
  qed
  from Suc.IH [OF this] obtain r where "att (Suc k + n) = Response r"
    "send n att (Suc k) = Inl (RetryError (max_retry_text (response_error r)))" by blast
  then show ?case using r0 by (simp add: is_retry_def)
qed

lemma session_forced_exhausted:
  assumes "\<forall>k<4. \<exists>r. att k = Response r \<and> status_code r \<in> set status_forcelist"
  shows "\<exists>r. att 3 = Response r
             \<and> send retry_total att 0 = Inl (RetryError (max_retry_text (response_error r)))"
proof -
  have "\<forall>j\<le>3. \<exists>r. att (0 + j) = Response r \<and> status_code r \<in> set status_forcelist"
    using assms by simp
  from send_forced_exhausted [OF this] show ?thesis by (simp add: retry_total_def)
qed

lemma post_create_session:
  "post (create_session t) url body = send retry_total (\<lambda>k. post_attempt t k url body) 0"
  by (simp add: create_session_def)

lemma put_create_session:
  "put (create_session t) url body = send retry_total (\<lambda>k. put_attempt t k url body) 0"
  by (simp add: create_session_def)

text \<open>
  Claim C5, as the code has it. For every file content, file name and URL, and whatever
  the network does, each of \<open>upload_direct\<close>, \<open>get_presigned_url\<close> and \<open>upload_presigned\<close>
  returns its tuple and raises nothing. When the request raises, the tuple has
  \<open>success = False\<close> and the payload \<open>{"error": str(e)}\<close>. When the session returns a
  response with a status outside 200..299, the tuple has \<open>success = False\<close> and the payload
  \<open>{"error": "HTTP <status>: <body>"}\<close>, the response body being the end of the error
  text. The session never returns a response with status 429, 500, 502, 503 or 504: when
  all four attempts of a request are answered with such a status, the request raises a
  \<open>RetryError\<close>, and the error of the operation is the text of that exception, not the body
  of a response.
\<close>

theorem api_operations_never_raise:
  "(\<exists>r. upload_direct rnd (create_session t) base clk fdata fname = Inr r)
   \<and> (\<exists>r. get_presigned_url rnd (create_session t) base clk fname = Inr r)
   \<and> (\<exists>r. upload_presigned rnd (create_session t) clk url fdata = Inr r)
   \<and> (\<forall>e. post (create_session t) (base @ ''/api/upload'')
              (Multipart ''files'' fname fdata ''audio/wav'') = Inl e
         \<longrightarrow> (\<exists>d. upload_direct rnd (create_session t) base clk fdata fname
                    = Inr (False, JObj [(''error'', JStr (exn_text e))], d)))
   \<and> (\<forall>e. post (create_session t) (base @ ''/api/upload/presigned'')
              (JsonBody (JObj [(''filename'', JStr fname)])) = Inl e
         \<longrightarrow> (\<exists>d. get_presigned_url rnd (create_session t) base clk fname
                    = Inr (False, JObj [(''error'', JStr (exn_text e))], d)))
   \<and> (\<forall>e. put (create_session t) url (RawBody fdata [(''Content-Type'', ''audio/wav'')]) = Inl e
         \<longrightarrow> (\<exists>d. upload_presigned rnd (create_session t) clk url fdata
                    = Inr (False, JObj [(''error'', JStr (exn_text e))], d)))
   \<and> (\<forall>resp. post (create_session t) (base @ ''/api/upload'')
                 (Multipart ''files'' fname fdata ''audio/wav'') = Inr resp
               \<and> \<not> (200 \<le> status_code resp \<and> status_code resp < 300)
         \<longrightarrow> (\<exists>d. upload_direct rnd (create_session t) base clk fdata fname
                    = Inr (False,
                           JObj [(''error'', JStr (''HTTP '' @ str_int (status_code resp) @ '': ''
                                                  @ response_text resp))], d)))
   \<and> (\<forall>resp. post (create_session t) (base @ ''/api/upload/presigned'')
                 (JsonBody (JObj [(''filename'', JStr fname)])) = Inr resp
               \<and> \<not> (200 \<le> status_code resp \<and> status_code resp < 300)
         \<longrightarrow> (\<exists>d. get_presigned_url rnd (create_session t) base clk fname
                    = Inr (False,
                           JObj [(''error'', JStr (''HTTP '' @ str_int (status_code resp) @ '': ''
                                                  @ response_text resp))], d)))
   \<and> (\<forall>resp. put (create_session t) url (RawBody fdata [(''Content-Type'', ''audio/wav'')])
                 = Inr resp
               \<and> \<not> (200 \<le> status_code resp \<and> status_code resp < 300)
         \<longrightarrow> (\<exists>d. upload_presigned rnd (create_session t) clk url fdata
                    = Inr (False,
                           JObj [(''error'', JStr (''HTTP '' @ str_int (status_code resp) @ '': ''
                                                  @ response_text resp))], d)))
   \<and> (\<forall>u b resp. post (create_session t) u b = Inr resp
         \<longrightarrow> status_code resp \<notin> set status_forcelist)
   \<and> (\<forall>u b resp. put (create_session t) u b = Inr resp
         \<longrightarrow> status_code resp \<notin> set status_forcelist)
   \<and> ((\<forall>k<4. \<exists>r. post_attempt t k (base @ ''/api/upload'')
                     (Multipart ''files'' fname fdata ''audio/wav'') = Response r
                   \<and> status_code r \<in> set status_forcelist)
         \<longrightarrow> (\<exists>r d. post_attempt t 3 (base @ ''/api/upload'')
                       (Multipart ''files'' fname fdata ''audio/wav'') = Response r
                     \<and> upload_direct rnd (create_session t) base clk fdata fname
                         = Inr (False,
                                JObj [(''error'', JStr (max_retry_text (response_error r)))], d)))
   \<and> ((\<forall>k<4. \<exists>r. post_attempt t k (base @ ''/api/upload/presigned'')
                     (JsonBody (JObj [(''filename'', JStr fname)])) = Response r
                   \<and> status_code r \<in> set status_forcelist)
         \<longrightarrow> (\<exists>r d. post_attempt t 3 (base @ ''/api/upload/presigned'')
                       (JsonBody (JObj [(''filename'', JStr fname)])) = Response r
                     \<and> get_presigned_url rnd (create_session t) base clk fname
                         = Inr (False,
                                JObj [(''error'', JStr (max_retry_text (response_error r)))], d)))
   \<and> ((\<forall>k<4. \<exists>r. put_attempt t k url (RawBody fdata [(''Content-Type'', ''audio/wav'')])
                     = Response r
                   \<and> status_code r \<in> set status_forcelist)
         \<longrightarrow> (\<exists>r d. put_attempt t 3 url (RawBody fdata [(''Content-Type'', ''audio/wav'')])
                       = Response r
                     \<and> upload_presigned rnd (create_session t) clk url fdata
                         = Inr (False,
                                JObj [(''error'', JStr (max_retry_text (response_error r)))], d)))"
proof (intro conjI allI impI)
  show "\<exists>r. upload_direct rnd (create_session t) base clk fdata fname = Inr r"
    by (rule upload_direct_cases(1))
  show "\<exists>r. get_presigned_url rnd (create_session t) base clk fname = Inr r"
    by (rule get_presigned_url_cases(1))
  show "\<exists>r. upload_presigned rnd (create_session t) clk url fdata = Inr r"
    by (rule upload_presigned_cases(1))
next
  fix e
  assume "post (create_session t) (base @ ''/api/upload'')
            (Multipart ''files'' fname fdata ''audio/wav'') = Inl e"
  from upload_direct_cases(2) [OF this]
  show "\<exists>d. upload_direct rnd (create_session t) base clk fdata fname
            = Inr (False, JObj [(''error'', JStr (exn_text e))], d)" by blast
next
  fix e
  assume "post (create_session t) (base @ ''/api/upload/presigned'')
            (JsonBody (JObj [(''filename'', JStr fname)])) = Inl e"
  from get_presigned_url_cases(2) [OF this]
  show "\<exists>d. get_presigned_url rnd (create_session t) base clk fname
            = Inr (False, JObj [(''error'', JStr (exn_text e))], d)" by blast
next
  fix e
  assume "put (create_session t) url (RawBody fdata [(''Content-Type'', ''audio/wav'')]) = Inl e"
  from upload_presigned_cases(2) [OF this]
  show "\<exists>d. upload_presigned rnd (create_session t) clk url fdata
            = Inr (False, JObj [(''error'', JStr (exn_text e))], d)" by blast
next
  fix resp
  assume a: "post (create_session t) (base @ ''/api/upload'')
               (Multipart ''files'' fname fdata ''audio/wav'') = Inr resp
             \<and> \<not> (200 \<le> status_code resp \<and> status_code resp < 300)"
  then have "status_code resp \<noteq> 200" by auto
  from upload_direct_cases(3) [OF conjunct1 [OF a] this]
  show "\<exists>d. upload_direct rnd (create_session t) base clk fdata fname
            = Inr (False,
                   JObj [(''error'', JStr (''HTTP '' @ str_int (status_code resp) @ '': ''
                                          @ response_text resp))], d)" by blast
next
  fix resp
  assume a: "post (create_session t) (base @ ''/api/upload/presigned'')
               (JsonBody (JObj [(''filename'', JStr fname)])) = Inr resp
             \<and> \<not> (200 \<le> status_code resp \<and> status_code resp < 300)"
  then have "status_code resp \<noteq> 200" by auto
  from get_presigned_url_cases(3) [OF conjunct1 [OF a] this]
  show "\<exists>d. get_presigned_url rnd (create_session t) base clk fname
            = Inr (False,
                   JObj [(''error'', JStr (''HTTP '' @ str_int (status_code resp) @ '': ''
                                          @ response_text resp))], d)" by blast
next
  fix resp
  assume a: "put (create_session t) url (RawBody fdata [(''Content-Type'', ''audio/wav'')])
               = Inr resp
             \<and> \<not> (200 \<le> status_code resp \<and> status_code resp < 300)"
  then have n: "status_code resp \<noteq> 200" "status_code resp \<noteq> 204" by auto
  from upload_presigned_cases(3) [OF conjunct1 [OF a] n]
  show "\<exists>d. upload_presigned rnd (create_session t) clk url fdata
            = Inr (False,
                   JObj [(''error'', JStr (''HTTP '' @ str_int (status_code resp) @ '': ''
                                          @ response_text resp))], d)" by blast
next
  fix u b resp
  assume "post (create_session t) u b = Inr resp"
  then show "status_code resp \<notin> set status_forcelist"
    unfolding post_create_session by (rule send_never_returns_forced)
next
  fix u b resp
  assume "put (create_session t) u b = Inr resp"
  then show "status_code resp \<notin> set status_forcelist"
    unfolding put_create_session by (rule send_never_returns_forced)
next
  assume "\<forall>k<4. \<exists>r. post_attempt t k (base @ ''/api/upload'')
                     (Multipart ''files'' fname fdata ''audio/wav'') = Response r
                   \<and> status_code r \<in> set status_forcelist"
  from session_forced_exhausted [OF this, folded post_create_session]
  obtain r where r: "post_attempt t 3 (base @ ''/api/upload'')
                       (Multipart ''files'' fname fdata ''audio/wav'') = Response r"
    and p: "post (create_session t) (base @ ''/api/upload'')
              (Multipart ''files'' fname fdata ''audio/wav'')
            = Inl (RetryError (max_retry_text (response_error r)))" by blast
  from upload_direct_cases(2) [OF p, of rnd clk] r
  show "\<exists>r d. post_attempt t 3 (base @ ''/api/upload'')
                       (Multipart ''files'' fname fdata ''audio/wav'') = Response r
                     \<and> upload_direct rnd (create_session t) base clk fdata fname
                         = Inr (False,
                                JObj [(''error'', JStr (max_retry_text (response_error r)))], d)"
    by auto
next
  assume "\<forall>k<4. \<exists>r. post_attempt t k (base @ ''/api/upload/presigned'')
                     (JsonBody (JObj [(''filename'', JStr fname)])) = Response r
                   \<and> status_code r \<in> set status_forcelist"
  from session_forced_exhausted [OF this, folded post_create_session]
  obtain r where r: "post_attempt t 3 (base @ ''/api/upload/presigned'')
                       (JsonBody (JObj [(''filename'', JStr fname)])) = Response r"
    and p: "post (create_session t) (base @ ''/api/upload/presigned'')
              (JsonBody (JObj [(''filename'', JStr fname)]))
            = Inl (RetryError (max_retry_text (response_error r)))" by blast
  from get_presigned_url_cases(2) [OF p, of rnd clk] r
  show "\<exists>r d. post_attempt t 3 (base @ ''/api/upload/presigned'')
                       (JsonBody (JObj [(''filename'', JStr fname)])) = Response r
                     \<and> get_presigned_url rnd (create_session t) base clk fname
                         = Inr (False,
                                JObj [(''error'', JStr (max_retry_text (response_error r)))], d)"
    by auto
next
  assume "\<forall>k<4. \<exists>r. put_attempt t k url (RawBody fdata [(''Content-Type'', ''audio/wav'')])
                     = Response r
                   \<and> status_code r \<in> set status_forcelist"
  from session_forced_exhausted [OF this, folded put_create_session]
  obtain r where r: "put_attempt t 3 url (RawBody fdata [(''Content-Type'', ''audio/wav'')])
                       = Response r"
    and p: "put (create_session t) url (RawBody fdata [(''Content-Type'', ''audio/wav'')])
            = Inl (RetryError (max_retry_text (response_error r)))" by blast
  from upload_presigned_cases(2) [OF p, of rnd clk] r
  show "\<exists>r d. put_attempt t 3 url (RawBody fdata [(''Content-Type'', ''audio/wav'')])
                       = Response r
                     \<and> upload_presigned rnd (create_session t) clk url fdata
                         = Inr (False,
                                JObj [(''error'', JStr (max_retry_text (response_error r)))], d)"
    by auto
qed

lemma str_int_403: "str_int 403 = ''403''"
  by (simp add: str_int_def str_nat.simps digit_char_def)

lemma str_int_503: "str_int 503 = ''503''"
  by (simp add: str_int_def str_nat.simps digit_char_def)

text \<open>
  An instance: every attempt of the POST ends with a reset connection, and the storage
  answers the PUT with 403 because the presigned URL has expired.
\<close>

theorem api_operations_never_raise_witness:
  "(\<exists>d. upload_direct fl
          (create_session
             \<lparr> post_attempt = (\<lambda>k u b. Retryable (IOError ''Connection reset by peer'')),
               put_attempt = (\<lambda>k u b. Response
                  \<lparr> status_code = 403, response_text = ''Request has expired'',
                    json_body = Inl (Exception ''Expecting value''),
                    has_retry_after = False \<rparr>) \<rparr>)
          ''http://localhost:8000'' (\<lambda>n. of_nat n) ''RIFF'' ''sermon.wav''
        = Inr (False,
               JObj [(''error'',
                      JStr ''Max retries exceeded (Caused by Connection reset by peer)'')], d))
   \<and> (\<exists>d. upload_presigned fl
          (create_session
             \<lparr> post_attempt = (\<lambda>k u b. Retryable (IOError ''Connection reset by peer'')),
               put_attempt = (\<lambda>k u b. Response
                  \<lparr> status_code = 403, response_text = ''Request has expired'',
                    json_body = Inl (Exception ''Expecting value''),
                    has_retry_after = False \<rparr>) \<rparr>)
          (\<lambda>n. of_nat n) (Some (JStr ''http://minio/upload'')) ''RIFF''
        = Inr (False, JObj [(''error'', JStr ''HTTP 403: Request has expired'')], d))"
  using api_operations_never_raise [of fl
          "\<lparr> post_attempt = (\<lambda>k u b. Retryable (IOError ''Connection reset by peer'')),
               put_attempt = (\<lambda>k u b. Response
                  \<lparr> status_code = 403, response_text = ''Request has expired'',
                    json_body = Inl (Exception ''Expecting value''),
                    has_retry_after = False \<rparr>) \<rparr>"
          "''http://localhost:8000''" "\<lambda>n. of_nat n" "''RIFF''" "''sermon.wav''"
          "Some (JStr ''http://minio/upload'')"]
  by (simp add: create_session_def retry_total_def numeral_3_eq_3 is_retry_def
        status_forcelist_def retry_after_status_codes_def max_retry_text_def str_int_403)

text \<open>
  Claim C5 as stated fails. The storage answers every attempt of the PUT with status 503
  and the body \<open>Service Unavailable\<close>. After the fourth answer the adapter of the session
  raises, and \<open>upload_presigned\<close> returns the text of that exception as its error: the
  body of the response is not in the error field.
\<close>

theorem api_error_body_counterexample:
  "upload_presigned fl
     (create_session
        \<lparr> post_attempt = (\<lambda>k u b. Response
             \<lparr> status_code = 200, response_text = [],
               json_body = Inr (JObj [(''upload_url'', JStr ''http://minio/upload'')]),
               has_retry_after = False \<rparr>),
          put_attempt = (\<lambda>k u b. Response
             \<lparr> status_code = 503, response_text = ''Service Unavailable'',
               json_body = Inl (Exception ''Expecting value''),
               has_retry_after = False \<rparr>) \<rparr>)
     (\<lambda>n. of_nat n) (Some (JStr ''http://minio/upload'')) ''RIFF''
   = Inr (False,
          JObj [(''error'',
                 JStr (''Max retries exceeded (Caused by ResponseError('' @ [CHR 0x27]
                       @ ''too many 503 error responses'' @ [CHR 0x27] @ ''))''))],
          1)
   \<and> ''Max retries exceeded (Caused by ResponseError('' @ [CHR 0x27]
       @ ''too many 503 error responses'' @ [CHR 0x27] @ ''))''
     \<noteq> ''HTTP 503: Service Unavailable''"
proof -
  have "fl 1 = 1" using fl_of_int [of 1] by simp
  then show ?thesis
    by (simp add: upload_presigned_def Let_def exception_payload_def create_session_def
          retry_total_def numeral_3_eq_3 is_retry_def status_forcelist_def
          max_retry_text_def response_error_def str_int_503)
qed

section \<open>The immediate scenario\<close>














lemma run_immediate_scenario_no_pool:
  "concurrent_uploads sc \<le> 0 \<Longrightarrow>
   run_immediate_scenario rnd w start_t end_t sc fs
     = Inl (ValueError ''max_workers must be greater than 0'')"
  by (simp add: run_immediate_scenario_def)




section \<open>The live progress message\<close>

lemma map_of_update_other:
  "map_of (AList.update k v al) k' = (if k' = k then Some v else map_of al k')"
  by (simp add: update_conv')

lemma update_progress_result:
  fixes self :: DiscordLiveNotifier and message :: ProgressMessage and fname :: string
    and stage :: ProcessingStage and info :: "(string \<times> json) list option" and est :: est_time
    and mid :: string
  assumes "map_of (active_messages self) mid = Some message"
  defines "stages1 \<equiv> (if fname \<in> fst ` set (stages message)
                         then AList.update fname stage (stages message)
                         else stages message)"
  defines "file_info1 \<equiv>
                (case info of
                   None \<Rightarrow> file_info message
                 | Some d \<Rightarrow>
                     if d = [] then file_info message
                     else let fi = (if fname \<notin> fst ` set (file_info message)
                                    then AList.update fname [] (file_info message)
                                    else file_info message)
                          in AList.update fname (dict_update (the (map_of fi fname)) d) fi)"
  defines "self1 \<equiv> self \<lparr> active_messages :=
                 AList.update mid (message \<lparr> stages := stages1, file_info := file_info1,
                                   last_updated := est_now est \<rparr>) (active_messages self) \<rparr>"
  shows "update_progress fm patch est self mid fname stage info =
     (case create_progress_embed fm est (title message) stages1 file_info1 of
        Inl e \<Rightarrow> (False, self1, None)
      | Inr emb \<Rightarrow>
          (case patch (edit_url_of self mid) emb of
             Inl e \<Rightarrow> (False, self1, Some (edit_url_of self mid, emb))
           | Inr status \<Rightarrow> (status = 200, self1, Some (edit_url_of self mid, emb))))"
    (is "?lhs = ?rhs")
    and "fst (snd (update_progress fm patch est self mid fname stage info)) = self1"
proof -
  show r: "?lhs = ?rhs"
    unfolding update_progress_def assms(1) option.case Let_def stages1_def file_info1_def self1_def
    by simp
  show "fst (snd ?lhs) = self1"
    unfolding r by (simp split: sum.splits)
qed


lemma update_progress_untracked:
  "map_of (active_messages self) mid = None \<Longrightarrow>
   update_progress fm patch est self mid file stage info = (False, self, None)"
  by (simp add: update_progress_def)

text \<open>The notifier after a call on a tracked message: only that message changes, and its
  stage mapping changes at the named file, when the file is one of its keys.\<close>

lemma update_progress_state:
  assumes "map_of (active_messages self) mid = Some message"
  shows "\<exists>m1. map_of (active_messages (fst (snd (update_progress fm patch est self mid fname stage info)))) mid
               = Some m1
             \<and> stages m1 = (if fname \<in> fst ` set (stages message)
                             then AList.update fname stage (stages message)
                             else stages message)
             \<and> title m1 = title message"
  unfolding update_progress_result(2) [OF assms]
  by (simp add: map_of_update_other)

lemma stage_of_apply_call:
  assumes "map_of (active_messages self) mid = Some message"
    and "map_of (stages message) file = Some s"
  shows "\<exists>m1. map_of (active_messages (apply_call fm self mid c)) mid = Some m1
             \<and> map_of (stages m1) file = Some (if call_file c = file then call_stage c else s)"
proof -
  from update_progress_state [OF assms(1), of fm "call_patch c" "call_est c" "call_file c"
      "call_stage c" "call_info c"]
  obtain m1 where m1: "map_of (active_messages (apply_call fm self mid c)) mid = Some m1"
    and st: "stages m1 = (if call_file c \<in> fst ` set (stages message)
                          then AList.update (call_file c) (call_stage c) (stages message)
                          else stages message)"
    unfolding apply_call_def by blast
  have "file \<in> fst ` set (stages message)"
    using assms(2) by (metis domI dom_map_of_conv_image_fst)
  then have "map_of (stages m1) file = Some (if call_file c = file then call_stage c else s)"
    unfolding st using assms(2) by (auto simp: map_of_update_other)
  with m1 show ?thesis by blast
qed

lemma recorded_stages_requested:
  assumes "map_of (active_messages self) mid = Some message"
    and "map_of (stages message) file = Some s"
  shows "recorded_stages fm self mid file cs = map Some (requested_stages s file cs)"
  using assms
proof (induction cs arbitrary: self message s)
  case Nil
  show ?case by simp
next
  case (Cons c cs)
  from stage_of_apply_call [OF Cons.prems, of fm c]
  obtain m1 where m1: "map_of (active_messages (apply_call fm self mid c)) mid = Some m1"
    and s1: "map_of (stages m1) file = Some (if call_file c = file then call_stage c else s)"
    by blast
  have "stage_of (apply_call fm self mid c) mid file
          = Some (if call_file c = file then call_stage c else s)"
    by (simp add: stage_of_def m1 s1)
  moreover note Cons.IH [OF m1 s1]
  ultimately show ?case by (simp add: Let_def)
qed

text \<open>
  Claim C1, as the code has it. \<open>update_progress\<close> does not compare the new stage with
  the recorded one: on a tracked message, for a file of that message, the stage recorded
  after each call is the stage of the last call that named the file, whatever was
  recorded before (\<open>COMPLETED\<close> and \<open>ERROR\<close> included), and calls naming other files leave
  it as it was. So the recorded sequence respects the order of the stages, with \<open>ERROR\<close>
  final, exactly when the sequence the callers ask for does.
\<close>

theorem recorded_stages_follow_requests:
  assumes "map_of (active_messages self) mid = Some message"
    and "map_of (stages message) fname = Some s"
  shows "recorded_stages fm self mid fname cs = map Some (requested_stages s fname cs)
         \<and> (never_regresses (s # map the (recorded_stages fm self mid fname cs))
              \<longleftrightarrow> never_regresses (s # requested_stages s fname cs))"
proof -
  have eq: "recorded_stages fm self mid fname cs = map Some (requested_stages s fname cs)"
    by (rule recorded_stages_requested [OF assms])
  have "map the (map Some (requested_stages s fname cs)) = requested_stages s fname cs"
    by (simp add: comp_def)
  with eq show ?thesis by simp
qed

text \<open>An instance: a file at \<open>DETECTED\<close>, then \<open>UPLOADING\<close> and \<open>UPLOADED\<close> are recorded.\<close>

theorem recorded_stages_follow_requests_witness:
  "recorded_stages
     \<lparr> fmt_str = (\<lambda>j. []), format_size = (\<lambda>j. Inr []), fmt_1f = (\<lambda>j. Inr []) \<rparr>
     \<lparr> self_webhook_url = ''https://discord.com/api/webhooks/1/tok'', webhook_id = ''1'',
       webhook_token = ''tok'',
       active_messages =
         [(''m1'', \<lparr> message_id = ''m1'', channel_id = ''c1'',
                    webhook_url = ''https://discord.com/api/webhooks/1/tok'',
                    title = ''Uploading 1 Sermon'', created_at = 0, last_updated = 0,
                    stages = [(''a.wav'', DETECTED)], file_info = [] \<rparr>)] \<rparr>
     ''m1'' ''a.wav''
     [\<lparr> call_file = ''a.wav'', call_stage = UPLOADING, call_info = None,
        call_est = \<lparr> est_now = 1, est_iso = [], est_clock = [] \<rparr>,
        call_patch = (\<lambda>u e. Inr 200) \<rparr>,
      \<lparr> call_file = ''a.wav'', call_stage = UPLOADED, call_info = None,
        call_est = \<lparr> est_now = 2, est_iso = [], est_clock = [] \<rparr>,
        call_patch = (\<lambda>u e. Inr 200) \<rparr>]
   = [Some UPLOADING, Some UPLOADED]"
  using recorded_stages_follow_requests
    [of "\<lparr> self_webhook_url = ''https://discord.com/api/webhooks/1/tok'', webhook_id = ''1'',
       webhook_token = ''tok'',
       active_messages =
         [(''m1'', \<lparr> message_id = ''m1'', channel_id = ''c1'',
                    webhook_url = ''https://discord.com/api/webhooks/1/tok'',
                    title = ''Uploading 1 Sermon'', created_at = 0, last_updated = 0,
                    stages = [(''a.wav'', DETECTED)], file_info = [] \<rparr>)] \<rparr>"
       "''m1''"
       "\<lparr> message_id = ''m1'', channel_id = ''c1'',
                    webhook_url = ''https://discord.com/api/webhooks/1/tok'',
                    title = ''Uploading 1 Sermon'', created_at = 0, last_updated = 0,
                    stages = [(''a.wav'', DETECTED)], file_info = [] \<rparr>"
       "''a.wav''" DETECTED
       "\<lparr> fmt_str = (\<lambda>j. []), format_size = (\<lambda>j. Inr []), fmt_1f = (\<lambda>j. Inr []) \<rparr>"
       "[\<lparr> call_file = ''a.wav'', call_stage = UPLOADING, call_info = None,
        call_est = \<lparr> est_now = 1, est_iso = [], est_clock = [] \<rparr>,
        call_patch = (\<lambda>u e. Inr 200) \<rparr>,
      \<lparr> call_file = ''a.wav'', call_stage = UPLOADED, call_info = None,
        call_est = \<lparr> est_now = 2, est_iso = [], est_clock = [] \<rparr>,
        call_patch = (\<lambda>u e. Inr 200) \<rparr>]"]
  by (simp add: Let_def)

text \<open>
  Claim C1 as stated fails. A file at \<open>COMPLETED\<close> goes back to \<open>UPLOADING\<close> with the next
  call, and a file at \<open>ERROR\<close> becomes \<open>COMPLETED\<close> with the next call.
\<close>

theorem stage_regresses_counterexample:
  "recorded_stages
     \<lparr> fmt_str = (\<lambda>j. []), format_size = (\<lambda>j. Inr []), fmt_1f = (\<lambda>j. Inr []) \<rparr>
     \<lparr> self_webhook_url = ''https://discord.com/api/webhooks/1/tok'', webhook_id = ''1'',
       webhook_token = ''tok'',
       active_messages =
         [(''m1'', \<lparr> message_id = ''m1'', channel_id = ''c1'',
                    webhook_url = ''https://discord.com/api/webhooks/1/tok'',
                    title = ''Uploading 1 Sermon'', created_at = 0, last_updated = 0,
                    stages = [(''a.wav'', DETECTED)], file_info = [] \<rparr>)] \<rparr>
     ''m1'' ''a.wav''
     [\<lparr> call_file = ''a.wav'', call_stage = COMPLETED, call_info = None,
        call_est = \<lparr> est_now = 1, est_iso = [], est_clock = [] \<rparr>,
        call_patch = (\<lambda>u e. Inr 200) \<rparr>,
      \<lparr> call_file = ''a.wav'', call_stage = UPLOADING, call_info = None,
        call_est = \<lparr> est_now = 2, est_iso = [], est_clock = [] \<rparr>,
        call_patch = (\<lambda>u e. Inr 200) \<rparr>,
      \<lparr> call_file = ''a.wav'', call_stage = ERROR, call_info = None,
        call_est = \<lparr> est_now = 3, est_iso = [], est_clock = [] \<rparr>,
        call_patch = (\<lambda>u e. Inr 200) \<rparr>,
      \<lparr> call_file = ''a.wav'', call_stage = COMPLETED, call_info = None,
        call_est = \<lparr> est_now = 4, est_iso = [], est_clock = [] \<rparr>,
        call_patch = (\<lambda>u e. Inr 200) \<rparr>]
   = [Some COMPLETED, Some UPLOADING, Some ERROR, Some COMPLETED]
   \<and> \<not> step_ok COMPLETED UPLOADING
   \<and> \<not> step_ok ERROR COMPLETED
   \<and> \<not> never_regresses [DETECTED, COMPLETED, UPLOADING, ERROR, COMPLETED]"
proof -
  let ?self = "\<lparr> self_webhook_url = ''https://discord.com/api/webhooks/1/tok'', webhook_id = ''1'',
       webhook_token = ''tok'',
       active_messages =
         [(''m1'', \<lparr> message_id = ''m1'', channel_id = ''c1'',
                    webhook_url = ''https://discord.com/api/webhooks/1/tok'',
                    title = ''Uploading 1 Sermon'', created_at = 0, last_updated = 0,
                    stages = [(''a.wav'', DETECTED)], file_info = [] \<rparr>)] \<rparr>"
  let ?m = "\<lparr> message_id = ''m1'', channel_id = ''c1'',
                    webhook_url = ''https://discord.com/api/webhooks/1/tok'',
                    title = ''Uploading 1 Sermon'', created_at = 0, last_updated = 0,
                    stages = [(''a.wav'', DETECTED)], file_info = [] \<rparr>"
  have 1: "map_of (active_messages ?self) ''m1'' = Some ?m" by simp
  have 2: "map_of (stages ?m) ''a.wav'' = Some DETECTED" by simp
  show ?thesis
    unfolding recorded_stages_requested [OF 1 2]
    by (simp add: Let_def step_ok_def)
qed

text \<open>
  The embed lists the files of the stage mapping only, so the information stored for a
  file that is no key of the stage mapping does not change it.
\<close>

lemma progress_field_cong:
  assumes "map_of finfo1 (fst fs) = map_of finfo (fst fs)"
  shows "progress_field fm finfo1 fs = progress_field fm finfo fs"
  using assms by (simp add: progress_field_def Let_def)

lemma create_progress_embed_cong:
  assumes "\<forall>k \<in> fst ` set stgs. map_of finfo1 k = map_of finfo k"
  shows "create_progress_embed fm est ttl stgs finfo1 = create_progress_embed fm est ttl stgs finfo"
proof -
  have "map (progress_field fm finfo1) stgs = map (progress_field fm finfo) stgs"
    using assms by (intro map_cong refl progress_field_cong) auto
  then show ?thesis unfolding create_progress_embed_def by (rule arg_cong)
qed

lemma file_info_update_other:
  assumes "k \<noteq> fname"
  shows "map_of (case info of
                   None \<Rightarrow> finfo
                 | Some d \<Rightarrow>
                     if d = [] then finfo
                     else let fi = (if fname \<notin> fst ` set finfo
                                    then AList.update fname [] finfo
                                    else finfo)
                          in AList.update fname (dict_update (the (map_of fi fname)) d) fi) k
         = map_of finfo k"
  using assms by (simp add: Let_def map_of_update_other split: option.splits)

text \<open>
  Claim C10, as the code has it. On a tracked message, a call of \<open>update_progress\<close> that
  names a file which is no key of the stage mapping leaves the stage mapping as it was (no
  entry added, none changed) and does not reject the call. What the call does is decided
  by the embed of the message as it was before the call: when that embed can be built,
  the edit request is sent with the embed of the unchanged stages and the call returns
  \<open>True\<close> exactly when the request returns status 200; when building it raises (a stored
  value of a listed file cannot be formatted), no request is sent and the call returns
  \<open>False\<close>.
\<close>

theorem unknown_file_not_rejected:
  assumes "map_of (active_messages self) mid = Some message"
    and "fname \<notin> fst ` set (stages message)"
  shows "\<exists>m1. map_of (active_messages
                       (fst (snd (update_progress fm patch est self mid fname stage info)))) mid
               = Some m1
             \<and> stages m1 = stages message
             \<and> create_progress_embed fm est (title m1) (stages m1) (file_info m1)
               = create_progress_embed fm est (title message) (stages message) (file_info message)
             \<and> (\<forall>emb. create_progress_embed fm est (title message) (stages message)
                        (file_info message) = Inr emb
                   \<longrightarrow> snd (snd (update_progress fm patch est self mid fname stage info))
                         = Some (edit_url_of self mid, emb)
                       \<and> (fst (update_progress fm patch est self mid fname stage info)
                            \<longleftrightarrow> patch (edit_url_of self mid) emb = Inr 200))
             \<and> (\<forall>e. create_progress_embed fm est (title message) (stages message)
                      (file_info message) = Inl e
                   \<longrightarrow> snd (snd (update_progress fm patch est self mid fname stage info)) = None
                       \<and> \<not> fst (update_progress fm patch est self mid fname stage info))"
proof -
  define file_info1 where "file_info1 =
                (case info of
                   None \<Rightarrow> file_info message
                 | Some d \<Rightarrow>
                     if d = [] then file_info message
                     else let fi = (if fname \<notin> fst ` set (file_info message)
                                    then AList.update fname [] (file_info message)
                                    else file_info message)
                          in AList.update fname (dict_update (the (map_of fi fname)) d) fi)"
  define m1 where "m1 = message \<lparr> stages := stages message, file_info := file_info1,
                                   last_updated := est_now est \<rparr>"
  define self1 where "self1 = self \<lparr> active_messages :=
                 AList.update mid m1 (active_messages self) \<rparr>"
  note r = update_progress_result [OF assms(1), of fm patch est fname stage info,
      unfolded if_not_P [OF assms(2)], folded file_info1_def, folded m1_def, folded self1_def]
  have a: "map_of (active_messages self1) mid = Some m1"
    by (simp add: self1_def map_of_update_other)
  have b: "stages m1 = stages message" "title m1 = title message" "file_info m1 = file_info1"
    by (simp_all add: m1_def)
  have "\<forall>k \<in> fst ` set (stages message). map_of file_info1 k = map_of (file_info message) k"
  proof
    fix k assume "k \<in> fst ` set (stages message)"
    with assms(2) have "k \<noteq> fname" by auto
    then show "map_of file_info1 k = map_of (file_info message) k"
      unfolding file_info1_def by (rule file_info_update_other)
  qed
  then have same: "create_progress_embed fm est (title message) (stages message) file_info1
      = create_progress_embed fm est (title message) (stages message) (file_info message)"
    by (rule create_progress_embed_cong)
  have c: "snd (snd (update_progress fm patch est self mid fname stage info))
             = Some (edit_url_of self mid, emb)
           \<and> (fst (update_progress fm patch est self mid fname stage info)
                \<longleftrightarrow> patch (edit_url_of self mid) emb = Inr 200)"
    if "create_progress_embed fm est (title message) (stages message) (file_info message)
          = Inr emb" for emb
    using that unfolding r(1) same by (simp split: sum.splits)
  have d: "snd (snd (update_progress fm patch est self mid fname stage info)) = None
           \<and> \<not> fst (update_progress fm patch est self mid fname stage info)"
    if "create_progress_embed fm est (title message) (stages message) (file_info message)
          = Inl e" for e
    using that unfolding r(1) same by simp
  have e: "create_progress_embed fm est (title m1) (stages m1) (file_info m1)
        = create_progress_embed fm est (title message) (stages message) (file_info message)"
    unfolding b by (rule same)
  show ?thesis
    unfolding r(2) using a b(1) c d e by blast
qed

text \<open>
  An instance: \<open>ghost.wav\<close> is not in the batch; the call returns \<open>True\<close>, the stage of
  \<open>a.wav\<close> stays \<open>DETECTED\<close> and \<open>ghost.wav\<close> gets no stage.
\<close>

theorem unknown_file_not_rejected_witness:
  "fst (update_progress
          \<lparr> fmt_str = (\<lambda>j. []), format_size = (\<lambda>j. Inr []), fmt_1f = (\<lambda>j. Inr []) \<rparr>
          (\<lambda>u e. Inr 200) \<lparr> est_now = 1, est_iso = [], est_clock = [] \<rparr>
          \<lparr> self_webhook_url = ''https://discord.com/api/webhooks/1/tok'', webhook_id = ''1'',
            webhook_token = ''tok'',
            active_messages =
              [(''m1'', \<lparr> message_id = ''m1'', channel_id = ''c1'',
                         webhook_url = ''https://discord.com/api/webhooks/1/tok'',
                         title = ''Uploading 1 Sermon'', created_at = 0, last_updated = 0,
                         stages = [(''a.wav'', DETECTED)], file_info = [] \<rparr>)] \<rparr>
          ''m1'' ''ghost.wav'' COMPLETED None)
   \<and> (\<exists>m1. map_of (active_messages (fst (snd (update_progress
          \<lparr> fmt_str = (\<lambda>j. []), format_size = (\<lambda>j. Inr []), fmt_1f = (\<lambda>j. Inr []) \<rparr>
          (\<lambda>u e. Inr 200) \<lparr> est_now = 1, est_iso = [], est_clock = [] \<rparr>
          \<lparr> self_webhook_url = ''https://discord.com/api/webhooks/1/tok'', webhook_id = ''1'',
            webhook_token = ''tok'',
            active_messages =
              [(''m1'', \<lparr> message_id = ''m1'', channel_id = ''c1'',
                         webhook_url = ''https://discord.com/api/webhooks/1/tok'',
                         title = ''Uploading 1 Sermon'', created_at = 0, last_updated = 0,
                         stages = [(''a.wav'', DETECTED)], file_info = [] \<rparr>)] \<rparr>
          ''m1'' ''ghost.wav'' COMPLETED None)))) ''m1'' = Some m1
        \<and> stages m1 = [(''a.wav'', DETECTED)])"
proof -
  let ?fm = "\<lparr> fmt_str = (\<lambda>j. []), format_size = (\<lambda>j. Inr []), fmt_1f = (\<lambda>j. Inr []) \<rparr>"
  let ?est = "\<lparr> est_now = 1, est_iso = [], est_clock = [] \<rparr>"
  let ?m = "\<lparr> message_id = ''m1'', channel_id = ''c1'',
                         webhook_url = ''https://discord.com/api/webhooks/1/tok'',
                         title = ''Uploading 1 Sermon'', created_at = 0, last_updated = 0,
                         stages = [(''a.wav'', DETECTED)], file_info = [] \<rparr>"
  let ?self = "\<lparr> self_webhook_url = ''https://discord.com/api/webhooks/1/tok'', webhook_id = ''1'',
            webhook_token = ''tok'', active_messages = [(''m1'', ?m)] \<rparr>"
  let ?R = "update_progress ?fm (\<lambda>u e. Inr 200) ?est ?self ''m1'' ''ghost.wav'' COMPLETED None"
  have 1: "map_of (active_messages ?self) ''m1'' = Some ?m" by simp
  have 2: "''ghost.wav'' \<notin> fst ` set (stages ?m)" by simp
  from unknown_file_not_rejected [OF 1 2, of ?fm "\<lambda>u e. Inr 200" ?est COMPLETED None]
  obtain m1 where m1: "map_of (active_messages (fst (snd ?R))) ''m1'' = Some m1"
    and st: "stages m1 = stages ?m"
    and sent: "\<And>emb. create_progress_embed ?fm ?est (title ?m) (stages ?m) (file_info ?m) = Inr emb
                \<Longrightarrow> fst ?R \<longleftrightarrow> (Inr 200 :: py_error + int) = Inr 200"
    by blast
  have "\<exists>emb. create_progress_embed ?fm ?est (title ?m) (stages ?m) (file_info ?m) = Inr emb"
    by (simp add: create_progress_embed_def progress_field_def Let_def)
  with sent have "fst ?R" by auto
  with m1 st show ?thesis by simp
qed

text \<open>
  Claim C10 as stated fails. The message tracks \<open>a.wav\<close>. A first call stores the duration
  of \<open>a.wav\<close> as the string \<open>3.5\<close>, which \<open>f"{...:.1f}"\<close> cannot format. A second call names
  \<open>ghost.wav\<close>, which is no key of the stage mapping, and the remote service would answer
  200 to every edit: the call sends no edit and returns \<open>False\<close>.
\<close>

theorem unknown_file_counterexample:
  "(case update_progress
          \<lparr> fmt_str = (\<lambda>j. []), format_size = (\<lambda>j. Inr []),
            fmt_1f = (\<lambda>j. case j of
                       JStr s \<Rightarrow> Inl (ValueError ''Unknown format code f for object of type str'')
                     | _ \<Rightarrow> Inr []) \<rparr>
          (\<lambda>u e. Inr 200) \<lparr> est_now = 2, est_iso = [], est_clock = [] \<rparr>
          (fst (snd (update_progress
             \<lparr> fmt_str = (\<lambda>j. []), format_size = (\<lambda>j. Inr []),
               fmt_1f = (\<lambda>j. case j of
                          JStr s \<Rightarrow> Inl (ValueError ''Unknown format code f for object of type str'')
                        | _ \<Rightarrow> Inr []) \<rparr>
             (\<lambda>u e. Inr 200) \<lparr> est_now = 1, est_iso = [], est_clock = [] \<rparr>
             \<lparr> self_webhook_url = ''https://discord.com/api/webhooks/1/tok'', webhook_id = ''1'',
               webhook_token = ''tok'',
               active_messages =
                 [(''m1'', \<lparr> message_id = ''m1'', channel_id = ''c1'',
                            webhook_url = ''https://discord.com/api/webhooks/1/tok'',
                            title = ''Uploading 1 Sermon'', created_at = 0, last_updated = 0,
                            stages = [(''a.wav'', DETECTED)], file_info = [] \<rparr>)] \<rparr>
             ''m1'' ''a.wav'' COMPLETED (Some [(''duration'', JStr ''3.5'')]))))
          ''m1'' ''ghost.wav'' COMPLETED None of
      (ok, self2, sent) \<Rightarrow>
        \<not> ok \<and> sent = None
        \<and> map_option stages (map_of (active_messages self2) ''m1'')
            = Some [(''a.wav'', COMPLETED)])"
  by (simp add: update_progress_def create_progress_embed_def progress_field_def info_text_def
        dict_update_def Let_def)

section \<open>File categories\<close>

lemma fl_mb_exact:
  assumes "0 \<le> sz" "sz < 2 ^ 53"
  shows "fl (of_int sz / (1024 * 1024)) = of_int sz / (1024 * 1024)"
proof (cases "sz = 0")
  case True then show ?thesis by simp
next
  case False
  with assms have "0 < sz" "sz \<le> 2 ^ 53" by simp_all
  from fl_exact_pos [OF this, of "- 20"] show ?thesis
    by (simp add: power_int_minus field_simps)
qed

lemma fl_mb_less_iff:
  assumes c: "0 < c" "c \<le> 1000"
  shows "fl (of_int sz / (1024 * 1024)) < of_int c \<longleftrightarrow> sz < c * (1024 * 1024)"
proof (cases "sz < c * (1024 * 1024)")
  case True
  have "fl (of_int sz / (1024 * 1024)) < of_int c"
  proof (cases "0 \<le> sz")
    case nonneg: True
    have "sz < 2 ^ 53" using True c by simp
    from fl_mb_exact [OF nonneg this] have "fl (of_int sz / (1024 * 1024)) = of_int sz / (1024 * 1024)" .
    moreover have "(of_int sz :: real) < of_int (c * (1024 * 1024))"
      using True by (simp only: of_int_less_iff)
    ultimately show ?thesis by (simp add: field_simps)
  next
    case False
    then have "of_int sz / (1024 * 1024) \<le> (0::real)" by (simp add: field_simps)
    from fl_mono [OF this] have "fl (of_int sz / (1024 * 1024)) \<le> 0" by simp
    with c show ?thesis by simp
  qed
  with True show ?thesis by simp
next
  case False
  then have "(of_int (c * (1024 * 1024)) :: real) \<le> of_int sz"
    by (simp only: of_int_le_iff)
  then have "(of_int c :: real) \<le> of_int sz / (1024 * 1024)" by (simp add: field_simps)
  from fl_mono [OF this] have "fl (of_int c) \<le> fl (of_int sz / (1024 * 1024))" .
  moreover have "fl (of_int c) = of_int c" using c by (intro fl_of_int) simp
  ultimately show ?thesis using False by simp
qed

lemma categorize_file_fl:
  "categorize_file fl sz =
     (if sz < 100 * (1024 * 1024) then ''small''
      else if sz < 500 * (1024 * 1024) then ''medium''
      else if sz < 1000 * (1024 * 1024) then ''large''
      else ''xlarge'')"
  using fl_mb_less_iff [of 100 sz] fl_mb_less_iff [of 500 sz] fl_mb_less_iff [of 1000 sz]
  by (simp add: categorize_file_def Let_def)

text \<open>
  Claim C8, as the code has it. With \<open>1 MB = 1024 * 1024\<close> bytes, the category is
  \<open>small\<close> exactly below 100 MB, \<open>medium\<close> exactly from 100 MB (included) to 500 MB
  (excluded), \<open>large\<close> exactly from 500 MB (included) to 1000 MB (excluded), and
  \<open>xlarge\<close> exactly from 1000 MB on. The float division does not move any threshold.
\<close>

theorem categorize_file_thresholds:
  "(categorize_file fl sz = ''small'' \<longleftrightarrow> sz < 100 * (1024 * 1024))
   \<and> (categorize_file fl sz = ''medium'' \<longleftrightarrow>
        100 * (1024 * 1024) \<le> sz \<and> sz < 500 * (1024 * 1024))
   \<and> (categorize_file fl sz = ''large'' \<longleftrightarrow>
        500 * (1024 * 1024) \<le> sz \<and> sz < 1000 * (1024 * 1024))
   \<and> (categorize_file fl sz = ''xlarge'' \<longleftrightarrow> 1000 * (1024 * 1024) \<le> sz)"
  unfolding categorize_file_fl by simp

theorem categorize_file_thresholds_witness:
  "categorize_file fl 629145600 = ''large'' \<and> categorize_file fl 1048576000 = ''xlarge''
   \<and> categorize_file fl 104857599 = ''small'' \<and> categorize_file fl 104857600 = ''medium''"
  using categorize_file_thresholds [of 629145600] categorize_file_thresholds [of 1048576000]
    categorize_file_thresholds [of 104857599] categorize_file_thresholds [of 104857600]
  by simp

text \<open>
  Claim C8 as stated fails. A file of 1000 MB (1048576000 bytes) is \<open>xlarge\<close>, and it does
  not exceed 1 GB, which is \<open>1024 ** 3\<close> bytes in the source.
\<close>

theorem categorize_file_counterexample:
  "categorize_file fl 1048576000 = ''xlarge'' \<and> \<not> (1048576000 > (1024 * 1024 * 1024 :: int))"
  unfolding categorize_file_fl by simp

section \<open>The staggered scenario\<close>

lemma fl_jitter_bound: "fl (60 * fl (3 / 10)) = 18"
  by (simp add: fl_def ilog2.simps round_even_def Let_def)

lemma fl_numeral_small [simp]: "fl 18 = 18" "fl 60 = 60"
  using fl_of_int [of 18] fl_of_int [of 60] by simp_all

lemma py_uniform_fl_range:
  assumes "0 \<le> r" "r < 1"
  shows "0 \<le> py_uniform fl 0 18 r \<and> py_uniform fl 0 18 r \<le> 18"
proof -
  have "0 \<le> 18 * r" "18 * r \<le> 18" using assms by simp_all
  from fl_mono [OF this(1)] fl_mono [OF this(2)]
  have a: "0 \<le> fl (18 * r)" "fl (18 * r) \<le> 18" by simp_all
  from fl_mono [OF a(1)] fl_mono [OF a(2)]
  have "0 \<le> fl (fl (18 * r))" "fl (fl (18 * r)) \<le> 18" by simp_all
  then show ?thesis by (simp add: py_uniform_def)
qed

lemma staggered_delay_fl_range:
  assumes "0 \<le> r" "r < 1" "i < 10"
  shows "of_nat i * 60 \<le> staggered_delay fl 60 i r
         \<and> staggered_delay fl 60 i r \<le> of_nat i * 60 + 18"
proof -
  define j where "j = py_uniform fl 0 18 r"
  have j: "0 \<le> j" "j \<le> 18" using py_uniform_fl_range [OF assms(1,2)] by (simp_all add: j_def)
  have b: "fl (of_nat i * 60) = of_nat i * 60"
    using fl_of_int [of "int i * 60"] assms(3) by simp
  have t: "fl (of_nat i * 60 + 18) = of_nat i * 60 + 18"
    using fl_of_int [of "int i * 60 + 18"] assms(3) by simp
  have "of_nat i * 60 \<le> of_nat i * 60 + j" "of_nat i * 60 + j \<le> of_nat i * 60 + 18"
    using j by simp_all
  from fl_mono [OF this(1)] fl_mono [OF this(2)]
  have "of_nat i * 60 \<le> fl (of_nat i * 60 + j)" "fl (of_nat i * 60 + j) \<le> of_nat i * 60 + 18"
    unfolding b t by simp_all
  then show ?thesis
    by (simp add: staggered_delay_def fl_jitter_bound b j_def)
qed

lemma staggered_delay_exact_range:
  assumes "0 \<le> r" "r < 1"
  shows "of_nat i * 60 \<le> staggered_delay id 60 i r
         \<and> staggered_delay id 60 i r < of_nat i * 60 + 18"
  using assms by (simp add: staggered_delay_def py_uniform_def)

lemma interval_seconds_600_10:
  assumes "duration_minutes sc = 10"
  shows "interval_seconds fl sc 10 = Inr 60" "interval_seconds id sc 10 = Inr 60"
  using assms by (simp_all add: interval_seconds_def)

lemma staggered_delays_600_10:
  assumes "duration_minutes sc = 10" "length fs = 10" "rnd = fl \<or> rnd = id"
  shows "staggered_delays rnd sc fs draws
           = Inr (map (\<lambda>i. staggered_delay rnd 60 i (draws i)) [0..<10])"
  using assms interval_seconds_600_10 [OF assms(1)]
  by (auto simp: staggered_delays_def)

text \<open>
  Claim C7, as the code has it. With a budget of 600 seconds (\<open>duration_minutes = 10\<close>) and
  10 files, whatever \<open>random()\<close> draws in \<open>[0, 1)\<close>, the list of delays is computed, and the
  delay of file \<open>i\<close> is at least \<open>i * 60\<close> and at most \<open>i * 60 + 18\<close> seconds in binary64; it
  is at least \<open>i * 60\<close> and less than \<open>i * 60 + 18\<close> when the arithmetic is exact. The float
  sum can round up to \<open>i * 60 + 18\<close> itself.
\<close>

theorem staggered_delay_within_jitter:
  assumes "duration_minutes sc = 10" and "length fs = 10"
    and "\<forall>i<10. 0 \<le> draws i \<and> draws i < 1"
  shows "(\<exists>ds. staggered_delays fl sc fs draws = Inr ds \<and> length ds = 10
            \<and> (\<forall>i<10. of_nat i * 60 \<le> ds ! i \<and> ds ! i \<le> of_nat i * 60 + 18))
       \<and> (\<exists>ds. staggered_delays id sc fs draws = Inr ds \<and> length ds = 10
            \<and> (\<forall>i<10. of_nat i * 60 \<le> ds ! i \<and> ds ! i < of_nat i * 60 + 18))"
proof (intro conjI)
  let ?ds = "map (\<lambda>i. staggered_delay fl 60 i (draws i)) [0..<10]"
  have "staggered_delays fl sc fs draws = Inr ?ds"
    by (rule staggered_delays_600_10 [OF assms(1,2)]) simp
  moreover have "of_nat i * 60 \<le> ?ds ! i \<and> ?ds ! i \<le> of_nat i * 60 + 18" if "i < 10" for i
  proof -
    from assms(3) that have "0 \<le> draws i" "draws i < 1" by simp_all
    from staggered_delay_fl_range [OF this that] show ?thesis using that by simp
  qed
  ultimately show "\<exists>ds. staggered_delays fl sc fs draws = Inr ds \<and> length ds = 10
            \<and> (\<forall>i<10. of_nat i * 60 \<le> ds ! i \<and> ds ! i \<le> of_nat i * 60 + 18)" by simp
next
  let ?ds = "map (\<lambda>i. staggered_delay id 60 i (draws i)) [0..<10]"
  have "staggered_delays id sc fs draws = Inr ?ds"
    by (rule staggered_delays_600_10 [OF assms(1,2)]) simp
  moreover have "of_nat i * 60 \<le> ?ds ! i \<and> ?ds ! i < of_nat i * 60 + 18" if "i < 10" for i
  proof -
    from assms(3) that have "0 \<le> draws i" "draws i < 1" by simp_all
    from staggered_delay_exact_range [OF this, of i] show ?thesis using that by simp
  qed
  ultimately show "\<exists>ds. staggered_delays id sc fs draws = Inr ds \<and> length ds = 10
            \<and> (\<forall>i<10. of_nat i * 60 \<le> ds ! i \<and> ds ! i < of_nat i * 60 + 18)" by simp
qed

text \<open>An instance: every draw is \<open>1 / 2\<close>; the delay of file 3 lies between \<open>3 * 60\<close> and
  \<open>3 * 60 + 18\<close>.\<close>

theorem staggered_delay_within_jitter_witness:
  "\<exists>ds. staggered_delays fl
          \<lparr> scenario_name = ''Sunday_Staggered_Upload'', description = [], file_count = 10,
            concurrent_uploads = 8, duration_minutes = 10, upload_pattern = ''staggered'',
            file_size_preference = ''mixed'', simulate_interruptions = False,
            network_delay_ms = 0 \<rparr>
          (replicate 10
            \<lparr> name = ''a.wav'', path = ''/home/gaius/data/a.wav'', size = 629145600,
              category = ''large'', remote_path = ''/home/gaius/data/a.wav'',
              hash_sha256 = None \<rparr>)
          (\<lambda>i. 1 / 2) = Inr ds
        \<and> length ds = 10 \<and> 3 * 60 \<le> ds ! 3 \<and> ds ! 3 \<le> 3 * 60 + 18"
proof -
  let ?sc = "\<lparr> scenario_name = ''Sunday_Staggered_Upload'', description = [], file_count = 10,
            concurrent_uploads = 8, duration_minutes = 10, upload_pattern = ''staggered'',
            file_size_preference = ''mixed'', simulate_interruptions = False,
            network_delay_ms = 0 \<rparr>"
  let ?fs = "replicate 10
            \<lparr> name = ''a.wav'', path = ''/home/gaius/data/a.wav'', size = 629145600,
              category = ''large'', remote_path = ''/home/gaius/data/a.wav'',
              hash_sha256 = None \<rparr>"
  have 1: "duration_minutes ?sc = 10" by simp
  have 2: "length ?fs = 10" by simp
  have 3: "\<forall>i<10. (0::real) \<le> 1 / 2 \<and> (1::real) / 2 < 1" by simp
  from staggered_delay_within_jitter [OF 1 2, of "\<lambda>i. 1 / 2", OF 3]
  obtain ds where ds: "staggered_delays fl ?sc ?fs (\<lambda>i. 1 / 2) = Inr ds" "length ds = 10"
    and b: "\<forall>i<10. of_nat i * 60 \<le> ds ! i \<and> ds ! i \<le> of_nat i * 60 + 18" by blast
  from b [rule_format, of 3] have "3 * 60 \<le> ds ! 3 \<and> ds ! 3 \<le> 3 * 60 + 18" by simp
  with ds show ?thesis by simp
qed

lemma staggered_delay_edge: "staggered_delay fl 60 1 (1 - 1 / 2 ^ 53) = 78"
  by (simp add: staggered_delay_def py_uniform_def fl_def ilog2.simps round_even_def Let_def)

lemma staggered_delay_zero_draw:
  "i < 10 \<Longrightarrow> staggered_delay fl 60 i 0 = of_nat i * 60"
  using fl_of_int [of "int i * 60"]
  by (simp add: staggered_delay_def py_uniform_def fl_jitter_bound)

text \<open>
  Claim C7 as stated fails. \<open>random()\<close> can return \<open>1 - 2 ** -53\<close>; then the jitter is
  \<open>18 - 2 ** -48\<close> and the delay of file 1, \<open>60 + jitter\<close>, rounds to 78: it differs from
  \<open>1 * 60\<close> by 18, not by less.
\<close>

theorem staggered_delay_counterexample:
  "staggered_delays fl
     \<lparr> scenario_name = ''Sunday_Staggered_Upload'', description = [], file_count = 10,
       concurrent_uploads = 8, duration_minutes = 10, upload_pattern = ''staggered'',
       file_size_preference = ''mixed'', simulate_interruptions = False,
       network_delay_ms = 0 \<rparr>
     (replicate 10
       \<lparr> name = ''a.wav'', path = ''/home/gaius/data/a.wav'', size = 629145600,
         category = ''large'', remote_path = ''/home/gaius/data/a.wav'',
         hash_sha256 = None \<rparr>)
     (\<lambda>i. if i = 1 then 1 - 1 / 2 ^ 53 else 0)
   = Inr [0, 78, 120, 180, 240, 300, 360, 420, 480, 540]
   \<and> \<not> \<bar>78 - 1 * 60\<bar> < (18::real)"
proof -
  have u: "[0..<10] = [0, 1, 2, 3, 4, 5, 6, 7, 8, 9::nat]"
    by (simp add: upt_rec)
  have z: "staggered_delay fl 60 i 0 = of_nat i * 60" if "i < 10" for i
    by (rule staggered_delay_zero_draw [OF that])
  show ?thesis
    using staggered_delay_edge z [of 0] z [of 2] z [of 3] z [of 4] z [of 5] z [of 6] z [of 7]
      z [of 8] z [of 9]
    by (simp add: staggered_delays_600_10 u)
qed

section \<open>The report file\<close>

lemma dumps_first_member:
  "dumps a l (JObj ((k, v) # kvs)) =
     (''{'' @ newline_indent (l + 1) @ dq @ escape a k @ dq @ '': '')
     @ dumps a (l + 1) v
     @ ((case kvs of
           [] \<Rightarrow> []
         | kv # kvs' \<Rightarrow> '','' @ newline_indent (l + 1)
             @ join ('','' @ newline_indent (l + 1)) (dumps_members a (l + 1) kvs))
        @ newline_indent l @ ''}'')"
proof (cases kvs)
  case Nil
  then show ?thesis by simp
next
  case (Cons kv kvs')
  obtain k' v' where kv: "kv = (k', v')" by (cases kv)
  show ?thesis unfolding Cons kv by simp
qed

text \<open>
  Claim C9. The report file of a list of metrics is a fixed text, then the timestamp as a
  JSON string, then a fixed text: the two fixed texts do not depend on the clock. Two
  calls with the same metrics (and the same configuration) therefore write files that
  are byte-identical outside the value of \<open>test_summary.timestamp\<close>.
\<close>

theorem report_differs_only_in_timestamp:
  "\<exists>pre post. \<forall>now_iso.
     report_file a rnd cfg now_iso metrics_list = pre @ (dq @ escape a now_iso @ dq) @ post"
proof -
  let ?rest1 = "[(''test_results'', JArr (map (test_result_entry rnd) metrics_list))]"
  let ?rest2 = "[(''total_tests'', JInt (int (length metrics_list))),
                 (''api_endpoint'', JStr (api_base_url cfg)),
                 (''ridgepoint_host'', JStr (ridgepoint_hostname cfg))]"
  let ?pre1 = "''{'' @ newline_indent (0 + 1) @ dq @ escape a ''test_summary'' @ dq @ '': ''"
  let ?pre2 = "''{'' @ newline_indent (0 + 1 + 1) @ dq @ escape a ''timestamp'' @ dq @ '': ''"
  let ?post2 = "(case ?rest2 of
           [] \<Rightarrow> []
         | kv # kvs' \<Rightarrow> '','' @ newline_indent (0 + 1 + 1)
             @ join ('','' @ newline_indent (0 + 1 + 1)) (dumps_members a (0 + 1 + 1) ?rest2))
        @ newline_indent (0 + 1) @ ''}''"
  let ?post1 = "(case ?rest1 of
           [] \<Rightarrow> []
         | kv # kvs' \<Rightarrow> '','' @ newline_indent (0 + 1)
             @ join ('','' @ newline_indent (0 + 1)) (dumps_members a (0 + 1) ?rest1))
        @ newline_indent 0 @ ''}''"
  have "report_file a rnd cfg now_iso metrics_list
          = (?pre1 @ ?pre2) @ (dq @ escape a now_iso @ dq) @ (?post2 @ ?post1)" for now_iso
    unfolding report_file_def generate_report_def dumps_first_member
    by (simp only: dumps.simps append_assoc)
  then show ?thesis by blast
qed

end
